theory Spec2Isabelle
  imports Complex_Main
begin

section \<open>Library primitives used by the page script\<close>

text \<open>
  The page script \<^verbatim>\<open>app.js\<close> is one closure \<^verbatim>\<open>main()\<close> over a handful of
  mutable variables and the D3 selections of the chart. The primitives it takes from
  JavaScript and D3 are written out here as list functions.

  \<^verbatim>\<open>String.prototype.trim\<close>: strips white space at both ends. Strings are byte lists
  here, so the white space is the ASCII part of what JavaScript strips (space, TAB, LF,
  VT, FF, CR); the white space of JavaScript beyond ASCII (the no-break space, the byte
  order mark, the line and paragraph separators, the other Unicode spaces) is not
  stripped here. No property below depends on which characters are stripped.
\<close>

definition is_ws :: "char \<Rightarrow> bool" where
  "is_ws c = (c = CHR '' '' \<or> c = CHR 0x09 \<or> c = CHR 0x0A \<or> c = CHR 0x0B \<or> c = CHR 0x0C \<or> c = CHR 0x0D)"

definition trim :: "string \<Rightarrow> string" where
  "trim s = rev (dropWhile is_ws (rev (dropWhile is_ws s)))"

text \<open>
  \<^verbatim>\<open>d3.group\<close> / \<^verbatim>\<open>d3.rollups\<close>: the values are put into a map from key to the array of
  the values with that key; a JavaScript map keeps its keys in insertion order, so the
  groups come out in the order in which their keys first occur. \<^verbatim>\<open>d3.rollups\<close> then
  applies the reducer to each group.
\<close>

fun group_push :: "'k \<Rightarrow> 'a \<Rightarrow> ('k \<times> 'a list) list \<Rightarrow> ('k \<times> 'a list) list" where
  "group_push k x [] = [(k, [x])]"
| "group_push k x ((k', v) # g) =
     (if k' = k then (k', v @ [x]) # g else (k', v) # group_push k x g)"

definition d3_group :: "('a \<Rightarrow> 'k) \<Rightarrow> 'a list \<Rightarrow> ('k \<times> 'a list) list" where
  "d3_group key xs = foldl (\<lambda>g x. group_push (key x) x g) [] xs"

definition d3_rollups :: "('a list \<Rightarrow> 'r) \<Rightarrow> ('a \<Rightarrow> 'k) \<Rightarrow> 'a list \<Rightarrow> ('k \<times> 'r) list" where
  "d3_rollups reduce key xs = map (\<lambda>(k, v). (k, reduce v)) (d3_group key xs)"

text \<open>
  \<^verbatim>\<open>Array.prototype.sort(cmp)\<close> is a stable sort: \<open>a\<close> stays before \<open>b\<close> unless
  \<open>cmp a b > 0\<close>. For a comparator that is a total preorder every stable sort gives the
  same array; it is written here as insertion from the right.
\<close>

fun sort_insert :: "('a \<Rightarrow> 'a \<Rightarrow> 'c::{linorder,zero}) \<Rightarrow> 'a \<Rightarrow> 'a list \<Rightarrow> 'a list" where
  "sort_insert cmp x [] = [x]"
| "sort_insert cmp x (y # ys) =
     (if cmp x y \<le> 0 then x # y # ys else y # sort_insert cmp x ys)"

definition js_sort :: "('a \<Rightarrow> 'a \<Rightarrow> 'c::{linorder,zero}) \<Rightarrow> 'a list \<Rightarrow> 'a list" where
  "js_sort cmp xs = foldr (sort_insert cmp) xs []"

text \<open>\<^verbatim>\<open>d3.descending(a, b)\<close> on numbers: \<open>-1\<close> when \<open>b < a\<close>, \<open>1\<close> when \<open>b > a\<close>, else \<open>0\<close>.\<close>

definition d3_descending :: "nat \<Rightarrow> nat \<Rightarrow> int" where
  "d3_descending a b = (if b < a then - 1 else if b > a then 1 else 0)"

section \<open>Fear categories\<close>

definition FEAR_CATEGORY_NAMES :: "string list" where
  "FEAR_CATEGORY_NAMES =
    [''Invasion, Impostors & Paranoia'',
     ''Persecution & Social Breakdown'',
     ''Institutional & Structural Control'',
     ''Possession & Loss of Agency'',
     ''Captivity & Voyeuristic Sadism'',
     ''Contagion & Mutation'',
     ''Body Horror / Envelope Violation'',
     ''Ecological / Natural Menace'',
     ''Isolation & Psychological Unraveling'',
     ''Grief & Familial Trauma'',
     ''Transgression & Moral Punishment'']"

definition FEAR_SET :: "string set" where
  "FEAR_SET = set FEAR_CATEGORY_NAMES"

text \<open>
  \<^verbatim>\<open>FEAR_GROUP_MAP = new Map([...])\<close>: the entries are set one after the other, a later
  entry for a key replacing an earlier one.
\<close>

definition FEAR_GROUP_ENTRIES :: "(string \<times> string) list" where
  "FEAR_GROUP_ENTRIES =
    [(''Invasion, Impostors & Paranoia'', ''Societal & Structural Horrors''),
     (''Persecution & Social Breakdown'', ''Societal & Structural Horrors''),
     (''Institutional & Structural Control'', ''Societal & Structural Horrors''),
     (''Captivity & Voyeuristic Sadism'', ''The Body as Battleground''),
     (''Contagion & Mutation'', ''The Body as Battleground''),
     (''Body Horror / Envelope Violation'', ''The Body as Battleground''),
     (''Possession & Loss of Agency'', ''Psychological & Domestic Horrors''),
     (''Isolation & Psychological Unraveling'', ''Psychological & Domestic Horrors''),
     (''Grief & Familial Trauma'', ''Psychological & Domestic Horrors''),
     (''Ecological / Natural Menace'', ''Cosmic & Moral Reckonings''),
     (''Transgression & Moral Punishment'', ''Cosmic & Moral Reckonings'')]"

definition FEAR_GROUP_MAP :: "string \<rightharpoonup> string" where
  "FEAR_GROUP_MAP = foldl (\<lambda>m (k, v). m(k \<mapsto> v)) Map.empty FEAR_GROUP_ENTRIES"

text \<open>A row of a fear-label CSV file; a row without the column reads \<^verbatim>\<open>undefined\<close>.\<close>

record fear_row =
  Fear_Category :: "string option"

text \<open>\<^verbatim>\<open>(d.Fear_Category || "").trim()\<close>\<close>

definition fear_label :: "fear_row \<Rightarrow> string" where
  "fear_label d = trim (case Fear_Category d of None \<Rightarrow> [] | Some s \<Rightarrow> s)"

record fear_bar =
  fear :: string
  fear_count :: nat

record group_bar =
  group :: string
  group_count :: nat

text \<open>The \<^verbatim>\<open>filter \<rightarrow> count \<rightarrow> sort\<close> block of \<^verbatim>\<open>drawFearBars\<close>.\<close>

definition fear_filtered :: "fear_row list \<Rightarrow> fear_row list" where
  "fear_filtered rows = filter (\<lambda>d. fear_label d \<in> FEAR_SET) rows"

definition fear_counts :: "fear_row list \<Rightarrow> fear_bar list" where
  "fear_counts rows =
     js_sort (\<lambda>a b. d3_descending (fear_count a) (fear_count b))
       (map (\<lambda>(f, c). \<lparr>fear = f, fear_count = c\<rparr>)
          (d3_rollups length fear_label (fear_filtered rows)))"

text \<open>The same block of \<^verbatim>\<open>drawFearBarsGrouped\<close>; \<^verbatim>\<open>get(...) || "Unmapped"\<close> also replaces
  an empty group name.\<close>

definition group_key :: "fear_row \<Rightarrow> string" where
  "group_key d =
     (case FEAR_GROUP_MAP (fear_label d) of
        None \<Rightarrow> ''Unmapped''
      | Some g \<Rightarrow> if g = [] then ''Unmapped'' else g)"

definition grouped_counts :: "fear_row list \<Rightarrow> group_bar list" where
  "grouped_counts rows =
     js_sort (\<lambda>a b. d3_descending (group_count a) (group_count b))
       (map (\<lambda>(g, c). \<lparr>group = g, group_count = c\<rparr>)
          (filter (\<lambda>(k, c). k \<noteq> ''Unmapped'')
             (d3_rollups length group_key (fear_filtered rows))))"

section \<open>Genre aggregates and scales\<close>

text \<open>
  A row of \<^verbatim>\<open>netflix_omdb_master.csv\<close> as \<^verbatim>\<open>d3.csv\<close> delivers it: every column is a
  string, a column that the file does not have reads \<^verbatim>\<open>undefined\<close>.
\<close>

record movie_row =
  OMDb_Genre :: "string option"
  Views :: "string option"
  OMDb_imdbRating :: "string option"

text \<open>\<^verbatim>\<open>!v\<close> for a string or \<^verbatim>\<open>undefined\<close>.\<close>

definition falsy :: "string option \<Rightarrow> bool" where
  "falsy v = (v = None \<or> v = Some [])"

text \<open>\<^verbatim>\<open>s.split(", ")\<close>; the first argument collects the current piece in reverse.\<close>

fun split_comma_space :: "string \<Rightarrow> string \<Rightarrow> string list" where
  "split_comma_space cur [] = [rev cur]"
| "split_comma_space cur [c] = [rev (c # cur)]"
| "split_comma_space cur (c # d # cs) =
     (if c = CHR '','' \<and> d = CHR '' '' then rev cur # split_comma_space [] cs
      else split_comma_space (c # cur) (d # cs))"

record exploded_row =
  ex_genre :: string
  ex_views :: "real option"
  ex_rating :: "real option"

text \<open>
  The loop \<^verbatim>\<open>movies.forEach\<close> that fills \<^verbatim>\<open>exploded\<close>. The unary plus of JavaScript
  (string to number) is the parameter \<open>num\<close>; \<open>None\<close> stands for \<^verbatim>\<open>NaN\<close>.
\<close>

definition explode_row :: "(string \<Rightarrow> real option) \<Rightarrow> movie_row \<Rightarrow> exploded_row list" where
  "explode_row num m =
     (if falsy (OMDb_Genre m) \<or> falsy (Views m) \<or> falsy (OMDb_imdbRating m) then []
      else map (\<lambda>g. \<lparr>ex_genre = trim g,
                      ex_views = num (filter (\<lambda>c. c \<noteq> CHR '','') (case_option [] id (Views m))),
                      ex_rating = num (case_option [] id (OMDb_imdbRating m))\<rparr>)
             (split_comma_space [] (case_option [] id (OMDb_Genre m))))"

definition exploded :: "(string \<Rightarrow> real option) \<Rightarrow> movie_row list \<Rightarrow> exploded_row list" where
  "exploded num movies = concat (map (explode_row num) movies)"

text \<open>
  \<^verbatim>\<open>d3.mean\<close> skips the values that are not numbers and is \<^verbatim>\<open>undefined\<close> when none is
  left; \<^verbatim>\<open>d3.sum\<close> skips them and starts from \<open>0\<close>.
\<close>

definition d3_mean :: "real option list \<Rightarrow> real option" where
  "d3_mean vs =
     (let ws = List.map_filter id vs
      in if ws = [] then None else Some (sum_list ws / real (length ws)))"

definition d3_sum :: "real option list \<Rightarrow> real" where
  "d3_sum vs = sum_list (List.map_filter id vs)"

definition d3_max :: "nat list \<Rightarrow> nat option" where
  "d3_max xs = (if xs = [] then None else Some (Max (set xs)))"

record genre_datum =
  genre :: string
  count :: nat
  avg_imdb :: "real option"
  total_views :: real

definition rolled :: "exploded_row list \<Rightarrow> (string \<times> exploded_row list) list" where
  "rolled ex = d3_group ex_genre ex"

definition genreData_of :: "(string \<Rightarrow> real option) \<Rightarrow> movie_row list \<Rightarrow> genre_datum list" where
  "genreData_of num movies =
     filter (\<lambda>d. count d \<ge> 5)
       (map (\<lambda>(g, v). \<lparr>genre = g, count = length v,
                        avg_imdb = d3_mean (map ex_rating v),
                        total_views = d3_sum (map ex_views v)\<rparr>)
          (rolled (exploded num movies)))"

text \<open>
  Modelled from the spec: \<^verbatim>\<open>d3.scaleSqrt\<close> (the D3 library is not part of the sources)
  is the square-root map from a domain \<open>[d0, d1]\<close> to a range \<open>[r0, r1]\<close>: the value and
  the domain are sent through the square root, the position \<open>t\<close> of the value in the
  domain is taken (\<open>1/2\<close> for a domain of width zero), and the range is interpolated as
  \<open>r0 * (1 - t) + r1 * t\<close>. Numbers are real numbers here.
\<close>

definition scale_sqrt :: "real \<Rightarrow> real \<Rightarrow> real \<Rightarrow> real \<Rightarrow> real \<Rightarrow> real" where
  "scale_sqrt d0 d1 r0 r1 v =
     (let a = sqrt d0; b = sqrt d1 - a;
          t = (if b \<noteq> 0 then (sqrt v - a) / b else 1 / 2)
      in r0 * (1 - t) + r1 * t)"

text \<open>
  The radius scale \<^verbatim>\<open>r = d3.scaleSqrt().domain([0, d3.max(genreData, d => d.count)])
  .range([5, 50])\<close>; with no aggregate the maximum is \<^verbatim>\<open>undefined\<close> and the scale gives
  \<^verbatim>\<open>NaN\<close>, which is \<open>None\<close>.
\<close>

definition r_scale :: "genre_datum list \<Rightarrow> nat \<Rightarrow> real option" where
  "r_scale genreData c =
     (case d3_max (map count genreData) of
        None \<Rightarrow> None
      | Some m \<Rightarrow> Some (scale_sqrt 0 (real m) 5 50 (real c)))"

text \<open>\<^verbatim>\<open>colorScale = d3.scaleThreshold().domain([50, 200, 500, 1000, 2000])\<close>\<close>

definition colorScale :: "nat \<Rightarrow> string" where
  "colorScale c =
     (if c < 50 then ''color-cat-6''
      else if c < 200 then ''color-cat-5''
      else if c < 500 then ''color-cat-4''
      else if c < 1000 then ''color-cat-3''
      else if c < 2000 then ''color-cat-2''
      else ''color-cat-1'')"

text \<open>\<^verbatim>\<open>s.toLowerCase()\<close> on the ASCII letters.\<close>

definition lower_char :: "char \<Rightarrow> char" where
  "lower_char c =
     (let n = (of_char c :: nat) in if 65 \<le> n \<and> n \<le> 90 then char_of (n + 32) else c)"

definition toLowerCase :: "string \<Rightarrow> string" where
  "toLowerCase s = map lower_char s"

text \<open>\<^verbatim>\<open>d.genre?.toLowerCase() !== "horror"\<close>\<close>

definition notHorror :: "genre_datum \<Rightarrow> bool" where
  "notHorror d = (toLowerCase (genre d) \<noteq> ''horror'')"

section \<open>The chart state\<close>

text \<open>
  The variables of \<^verbatim>\<open>main()\<close> and the part of the page that the script writes are one
  record that every function takes and returns. A D3 transition is recorded by the
  values it ends at. Pixel positions are recorded by the pair of scales that produced
  them (the base scales \<^verbatim>\<open>x\<close>, \<^verbatim>\<open>y\<close>, or the zoomed ones of \<^verbatim>\<open>zoomToHorror\<close>). Axis
  ticks, legend entries, fonts and the tooltip are left out.
\<close>

datatype mode = ModeNone | Scatter | Bars

datatype scales = BaseScales | ZoomScales | BarScales

text \<open>A circle \<^verbatim>\<open>.genre-bubble\<close>; an inline style that was never set is \<open>None\<close>.\<close>

record bubble =
  datum :: genre_datum
  colour :: string
  placed :: scales
  radius :: "real option"
  fill :: "string option"
  opacity :: "real option"
  display :: "string option"
  dimmed :: bool
  pointer_events :: "string option"

text \<open>A text \<^verbatim>\<open>.genre-label\<close>.\<close>

record glabel =
  l_datum :: genre_datum
  l_placed :: scales
  l_opacity :: "real option"
  l_display :: "string option"
  l_dimmed :: bool
  l_pointer_events :: "string option"

text \<open>A \<^verbatim>\<open>rect\<close> of a bar chart; its datum has \<^verbatim>\<open>fear\<close> or \<^verbatim>\<open>group\<close>, and \<^verbatim>\<open>count\<close>.\<close>

record bar =
  bar_fear :: "string option"
  bar_group :: "string option"
  bar_count :: nat
  bar_dimmed :: bool
  bar_pointer_events :: "string option"

text \<open>
  The calls of the script's own functions are logged in \<open>trace\<close>, in call order. The log
  is not a variable of the script: it is what a recording stand-in for the functions
  would see.
\<close>

datatype call =
    ShowFineNote | HideFineNote
  | CrossfadeOut | CrossfadeIn
  | DrawScatter | AddQuadrantsIfNeeded
  | FocusHorror bool | FocusQuadrant string
  | ZoomToHorror | RestoreFromHorrorZoom
  | DrawFearBars | DrawFearBarsGrouped
  | FocusBars "nat option" | FocusBarsBySupergroup "string option"
  | ApplyStepTitle | ApplyStepSubtitle | ApplyStepFX
  | ShowMethodologyBtn | HideMethodologyBtn

text \<open>
  What the script leaves for later: the callback of \<^verbatim>\<open>crossfadeOut\<close> (with the supergroup
  to focus, if any), the rest of a bar renderer that waits for its CSV file, and the
  300 ms timer that focuses a supergroup.
\<close>

datatype renderer = Flat | Grouped

datatype task =
    FadeEnd "string option"
  | CsvLoaded renderer
  | FocusTimer string

record chart =
  mode :: mode
  fearRows :: "fear_row list option"
  quadrantsAdded :: bool
  isHorrorFocused :: bool
  title_text :: string
  subtitle_text :: string
  note_hidden :: bool
  methodology_btn :: "string option"
  bubbles :: "bubble list"
  labels :: "glabel list"
  bars :: "bar list"
  axes :: "scales option"
  axis_text_opacity :: "real option"
  guides :: "real option list"
  legend_drawn :: bool
  center_label :: bool
  chart_opacity :: "real option"
  axis_opacity :: "real option"
  legend_opacity :: "real option"
  trace :: "call list"
  pending :: "task list"
  fetched :: "string list"

text \<open>
  \<open>methodology_btn\<close> is the inline \<^verbatim>\<open>display\<close> of \<^verbatim>\<open>#methodology-btn\<close>, \<open>None\<close> when the
  page has no such element. \<open>guides\<close> has one entry for every set of quadrant lines and
  labels that \<^verbatim>\<open>addQuadrantsIfNeeded\<close> has appended to the axis layer: its inline
  opacity. \<open>fetched\<close> lists the CSV files requested by the bar renderers.

  What is fixed when the page has loaded: the aggregates and the two fear-label files.
\<close>

record page =
  genreData :: "genre_datum list"
  csv_manualfix :: "fear_row list"
  csv_clean :: "fear_row list"

definition log :: "call \<Rightarrow> chart \<Rightarrow> chart" where
  "log c s = s\<lparr>trace := trace s @ [c]\<rparr>"

definition showFineNote :: "chart \<Rightarrow> chart" where
  "showFineNote s = (log ShowFineNote s)\<lparr>note_hidden := False\<rparr>"

definition hideFineNote :: "chart \<Rightarrow> chart" where
  "hideFineNote s = (log HideFineNote s)\<lparr>note_hidden := True\<rparr>"

text \<open>
  \<^verbatim>\<open>crossfadeOut([gChart, gAxis, gLegend], 220, d3.easeCubicOut, afterOnce)\<close>, the only
  way it is called: the three layers end at opacity 0 and the callback is left for the
  end of the transition. (In D3 a second \<^verbatim>\<open>d3.transition()\<close> on the document that starts
  before the first has ended interrupts it, and the first callback is then never run;
  here every callback that was left is run.)
\<close>

definition crossfadeOut :: "string option \<Rightarrow> chart \<Rightarrow> chart" where
  "crossfadeOut g s =
     (log CrossfadeOut s)\<lparr>chart_opacity := Some 0, axis_opacity := Some 0,
                           legend_opacity := Some 0, pending := pending s @ [FadeEnd g]\<rparr>"

text \<open>\<^verbatim>\<open>crossfadeIn([gChart, gAxis], 260, d3.easeCubicIn)\<close>\<close>

definition crossfadeIn :: "chart \<Rightarrow> chart" where
  "crossfadeIn s = (log CrossfadeIn s)\<lparr>chart_opacity := Some 1, axis_opacity := Some 1\<rparr>"

text \<open>The three \<^verbatim>\<open>selectAll("*").remove()\<close> on the chart, axis and legend layers.\<close>

definition clear_layers :: "chart \<Rightarrow> chart" where
  "clear_layers s =
     s\<lparr>bubbles := [], labels := [], bars := [],
       axes := None, axis_text_opacity := None, guides := [],
       legend_drawn := False\<rparr>"

definition new_bubble :: "genre_datum list \<Rightarrow> genre_datum \<Rightarrow> bubble" where
  "new_bubble gd d =
     \<lparr>datum = d, colour = colorScale (count d), placed = BaseScales,
      radius = r_scale gd (count d), fill = None, opacity = None, display = None,
      dimmed = False, pointer_events = None\<rparr>"

definition new_label :: "genre_datum \<Rightarrow> glabel" where
  "new_label d =
     \<lparr>l_datum = d, l_placed = BaseScales, l_opacity = None, l_display = None,
      l_dimmed = False, l_pointer_events = None\<rparr>"

text \<open>\<^verbatim>\<open>[...genreData].sort((a,b) => b.total_views - a.total_views).slice(0, 10)\<close>\<close>

definition top10 :: "genre_datum list \<Rightarrow> genre_datum list" where
  "top10 gd = take 10 (js_sort (\<lambda>a b. total_views b - total_views a) gd)"

definition drawScatter :: "page \<Rightarrow> chart \<Rightarrow> chart" where
  "drawScatter p s =
     (let s1 = showFineNote (log DrawScatter s);
          s2 = clear_layers (s1\<lparr>mode := Scatter\<rparr>)
      in s2\<lparr>bubbles := map (new_bubble (genreData p)) (genreData p),
            axes := Some BaseScales,
            quadrantsAdded := False,
            labels := map new_label (top10 (genreData p)),
            legend_drawn := True\<rparr>)"

text \<open>
  \<^verbatim>\<open>addQuadrantsIfNeeded\<close>: the flag is set and one set of guides is appended. (On a page
  where no aggregate has a numeric rating the mean rating is \<^verbatim>\<open>undefined\<close> and the source
  stops with a \<^verbatim>\<open>TypeError\<close> at \<^verbatim>\<open>meanRating.toFixed(2)\<close>, after the flag is set and the
  lines and corner labels are appended; that stop is not modelled.)
\<close>

definition addQuadrantsIfNeeded :: "chart \<Rightarrow> chart" where
  "addQuadrantsIfNeeded s =
     (let s1 = log AddQuadrantsIfNeeded s
      in if quadrantsAdded s1 then s1
         else s1\<lparr>quadrantsAdded := True, guides := guides s1 @ [None]\<rparr>)"

text \<open>
  \<^verbatim>\<open>.classed("dimmed", f).style("pointer-events", d => f(d) ? "none" : "all")\<close> on the
  bubbles and on the labels.
\<close>

definition dim_bubble :: "(genre_datum \<Rightarrow> bool) \<Rightarrow> bubble \<Rightarrow> bubble" where
  "dim_bubble f b =
     b\<lparr>dimmed := f (datum b),
       pointer_events := Some (if f (datum b) then ''none'' else ''all'')\<rparr>"

definition dim_label :: "(genre_datum \<Rightarrow> bool) \<Rightarrow> glabel \<Rightarrow> glabel" where
  "dim_label f l =
     l\<lparr>l_dimmed := f (l_datum l),
       l_pointer_events := Some (if f (l_datum l) then ''none'' else ''all'')\<rparr>"

definition apply_dim :: "(genre_datum \<Rightarrow> bool) \<Rightarrow> chart \<Rightarrow> chart" where
  "apply_dim f s =
     s\<lparr>bubbles := map (dim_bubble f) (bubbles s), labels := map (dim_label f) (labels s)\<rparr>"

definition focusHorror :: "bool \<Rightarrow> chart \<Rightarrow> chart" where
  "focusHorror on s =
     (let s1 = (log (FocusHorror on) s)\<lparr>isHorrorFocused := on\<rparr>;
          s2 = s1\<lparr>title_text := (if on then ''Horror in the Hit Matrix'' else ''The Hit Matrix'')\<rparr>
      in apply_dim (\<lambda>d. on \<and> notHorror d) s2)"

text \<open>Comparisons of JavaScript with a number that may be missing are false.\<close>

definition le_opt :: "real option \<Rightarrow> real option \<Rightarrow> bool" where
  "le_opt a b = (case (a, b) of (Some u, Some v) \<Rightarrow> u \<le> v | _ \<Rightarrow> False)"

definition shouldDim :: "page \<Rightarrow> string \<Rightarrow> genre_datum \<Rightarrow> bool" where
  "shouldDim p quadrant d =
     (let meanRating = d3_mean (map avg_imdb (genreData p));
          meanViews = d3_mean (map (\<lambda>d. Some (total_views d)) (genreData p))
      in if quadrant = ''high-views'' then
           (let g = toLowerCase (genre d)
            in \<not> (g = ''comedy'' \<or> g = ''action'' \<or> g = ''drama''))
         else if quadrant = ''critical-darlings'' then
           (le_opt (avg_imdb d) meanRating \<or> le_opt meanViews (Some (total_views d)))
         else if quadrant = ''cult-corner'' then
           toLowerCase (genre d) \<noteq> ''horror''
         else False)"

definition focusQuadrant :: "page \<Rightarrow> string \<Rightarrow> chart \<Rightarrow> chart" where
  "focusQuadrant p quadrant s = apply_dim (shouldDim p quadrant) (log (FocusQuadrant quadrant) s)"

definition zoom_bubble :: "bubble \<Rightarrow> bubble" where
  "zoom_bubble b =
     (if notHorror (datum b) then b\<lparr>opacity := Some 0, display := Some ''none''\<rparr>
      else b\<lparr>placed := ZoomScales, radius := Some 200, fill := Some ''#1D1C1C'',
             opacity := Some 1, display := Some ''block''\<rparr>)"

definition zoom_label :: "glabel \<Rightarrow> glabel" where
  "zoom_label l = l\<lparr>l_opacity := Some 0, l_display := Some ''none''\<rparr>"

definition zoomToHorror :: "page \<Rightarrow> chart \<Rightarrow> chart" where
  "zoomToHorror p s =
     (let s1 = log ZoomToHorror s
      in if find (\<lambda>d. \<not> notHorror d) (genreData p) = None then s1
         else s1\<lparr>bubbles := map zoom_bubble (bubbles s1),
                 labels := map zoom_label (labels s1),
                 axes := map_option (\<lambda>a. ZoomScales) (axes s1),
                 axis_text_opacity := (if axes s1 = None then axis_text_opacity s1 else Some 0),
                 center_label := True,
                 legend_opacity := Some 0,
                 guides := map (\<lambda>g. Some 0) (guides s1)\<rparr>)"

definition restore_bubble :: "page \<Rightarrow> bubble \<Rightarrow> bubble" where
  "restore_bubble p b =
     b\<lparr>display := Some ''block'', opacity := Some (8 / 10), placed := BaseScales,
       radius := r_scale (genreData p) (count (datum b)), fill := None\<rparr>"

definition restore_label :: "glabel \<Rightarrow> glabel" where
  "restore_label l = l\<lparr>l_display := Some ''block'', l_opacity := Some 1, l_placed := BaseScales\<rparr>"

definition restoreFromHorrorZoom :: "page \<Rightarrow> chart \<Rightarrow> chart" where
  "restoreFromHorrorZoom p s =
     (let s1 = log RestoreFromHorrorZoom s;
          s2 = s1\<lparr>bubbles := map (restore_bubble p) (bubbles s1),
                  labels := map restore_label (labels s1),
                  center_label := False,
                  axes := map_option (\<lambda>a. BaseScales) (axes s1),
                  axis_text_opacity := (if axes s1 = None then axis_text_opacity s1 else Some 1),
                  legend_opacity := Some 1\<rparr>
      in if quadrantsAdded s2 then s2\<lparr>guides := map (\<lambda>g. Some 1) (guides s2)\<rparr> else s2)"

section \<open>Bar charts\<close>

definition new_fear_bar :: "fear_bar \<Rightarrow> bar" where
  "new_fear_bar d =
     \<lparr>bar_fear = Some (fear d), bar_group = None, bar_count = fear_count d,
      bar_dimmed = False, bar_pointer_events = None\<rparr>"

definition new_group_bar :: "group_bar \<Rightarrow> bar" where
  "new_group_bar d =
     \<lparr>bar_fear = None, bar_group = Some (group d), bar_count = group_count d,
      bar_dimmed = False, bar_pointer_events = None\<rparr>"

text \<open>
  The two subtitles of the bar charts; the apostrophe and the dash of the source are not
  ASCII and are given by their UTF-8 bytes.
\<close>

definition SUBTITLE_BARS :: string where
  "SUBTITLE_BARS =
     ''Horror titles from Netflix'' @ [CHR 0xE2, CHR 0x80, CHR 0x99] @
     ''s Most-Watched Movies (Jan'' @ [CHR 0xE2, CHR 0x80, CHR 0x93] @
     ''Jun 2025), divided into the main core fears represented in each film.''"

definition SUBTITLE_GROUPED :: string where
  "SUBTITLE_GROUPED =
     ''Horror titles from Netflix'' @ [CHR 0xE2, CHR 0x80, CHR 0x99] @
     ''s Most-Watched Movies (Jan'' @ [CHR 0xE2, CHR 0x80, CHR 0x93] @
     ''Jun 2025), grouped by core fear types represented in each film.''"

text \<open>
  \<^verbatim>\<open>drawFearBars\<close> from \<^verbatim>\<open>mode = "bars"\<close> on, with the rows that \<^verbatim>\<open>fearRows\<close> holds at
  that point.
\<close>

definition drawFearBars_rest :: "fear_row list \<Rightarrow> chart \<Rightarrow> chart" where
  "drawFearBars_rest rows s =
     (let s1 = clear_layers (s\<lparr>mode := Bars\<rparr>);
          s2 = s1\<lparr>center_label := False\<rparr>;
          counts = fear_counts rows;
          s3 = s2\<lparr>title_text := ''What Are We Afraid of?'',
                  subtitle_text := SUBTITLE_BARS\<rparr>
      in s3\<lparr>axes := Some BarScales, bars := map new_fear_bar counts\<rparr>)"

text \<open>
  \<^verbatim>\<open>drawFearBars\<close> is an \<^verbatim>\<open>async\<close> function: it runs to its end at once when
  \<^verbatim>\<open>fearRows\<close> is set; otherwise it requests its file and the rest runs when the file
  has arrived.
\<close>

definition drawFearBars :: "chart \<Rightarrow> chart" where
  "drawFearBars s =
     (let s1 = hideFineNote (log DrawFearBars s)
      in case fearRows s1 of
           None \<Rightarrow> s1\<lparr>fetched := fetched s1 @ [''./horror_categorized_clean_manualfix.csv''],
                      pending := pending s1 @ [CsvLoaded Flat]\<rparr>
         | Some rows \<Rightarrow> drawFearBars_rest rows s1)"

definition drawFearBarsGrouped_rest :: "fear_row list \<Rightarrow> chart \<Rightarrow> chart" where
  "drawFearBarsGrouped_rest rows s =
     (let s1 = clear_layers (s\<lparr>mode := Bars\<rparr>);
          s2 = s1\<lparr>center_label := False\<rparr>;
          groupedCounts = grouped_counts rows;
          s3 = s2\<lparr>title_text := ''What Are We Afraid of?'',
                  subtitle_text := SUBTITLE_GROUPED\<rparr>
      in s3\<lparr>axes := Some BarScales, bars := map new_group_bar groupedCounts\<rparr>)"

definition drawFearBarsGrouped :: "chart \<Rightarrow> chart" where
  "drawFearBarsGrouped s =
     (let s1 = hideFineNote (log DrawFearBarsGrouped s)
      in case fearRows s1 of
           None \<Rightarrow> s1\<lparr>fetched := fetched s1 @ [''./horror_categorized_clean.csv''],
                      pending := pending s1 @ [CsvLoaded Grouped]\<rparr>
         | Some rows \<Rightarrow> drawFearBarsGrouped_rest rows s1)"

definition undim_bar :: "bar \<Rightarrow> bar" where
  "undim_bar b = b\<lparr>bar_dimmed := False, bar_pointer_events := Some ''all''\<rparr>"

definition dim_bar :: "bool \<Rightarrow> bar \<Rightarrow> bar" where
  "dim_bar off b =
     b\<lparr>bar_dimmed := off, bar_pointer_events := Some (if off then ''none'' else ''all'')\<rparr>"

text \<open>\<^verbatim>\<open>focusBars(focusCount = null)\<close>; the router only calls it with \<^verbatim>\<open>null\<close>.\<close>

definition focusBars :: "nat option \<Rightarrow> chart \<Rightarrow> chart" where
  "focusBars focusCount s =
     (let s1 = log (FocusBars focusCount) s
      in if mode s1 \<noteq> Bars then s1
         else case focusCount of
                None \<Rightarrow> s1\<lparr>bars := map undim_bar (bars s1)\<rparr>
              | Some n \<Rightarrow>
                  s1\<lparr>bars := map (\<lambda>(i, b). dim_bar (i \<ge> n) b)
                                (zip [0..<length (bars s1)] (bars s1))\<rparr>)"

definition focusBarsBySupergroup :: "string option \<Rightarrow> chart \<Rightarrow> chart" where
  "focusBarsBySupergroup supergroupName s =
     (let s1 = log (FocusBarsBySupergroup supergroupName) s
      in if mode s1 \<noteq> Bars then s1
         else if supergroupName = None \<or> supergroupName = Some ''none'' then
           s1\<lparr>bars := map undim_bar (bars s1)\<rparr>
         else
           s1\<lparr>bars := map (\<lambda>b. dim_bar (Option.bind (bar_fear b) FEAR_GROUP_MAP \<noteq> supergroupName) b)
                         (bars s1)\<rparr>)"

section \<open>The router\<close>

definition showMethodologyBtn :: "chart \<Rightarrow> chart" where
  "showMethodologyBtn s =
     (let s1 = log ShowMethodologyBtn s
      in case methodology_btn s1 of
           None \<Rightarrow> s1
         | Some d \<Rightarrow> s1\<lparr>methodology_btn := Some ''block''\<rparr>)"

definition hideMethodologyBtn :: "chart \<Rightarrow> chart" where
  "hideMethodologyBtn s =
     (let s1 = log HideMethodologyBtn s
      in case methodology_btn s1 of
           None \<Rightarrow> s1
         | Some d \<Rightarrow> s1\<lparr>methodology_btn := Some ''none''\<rparr>)"

text \<open>
  \<^verbatim>\<open>go(scene)\<close>, branch by branch. What a bar scene hands to \<^verbatim>\<open>crossfadeOut\<close> as its
  callback is left in \<open>pending\<close> and run by \<open>run_task\<close> below.
\<close>

definition go :: "page \<Rightarrow> string \<Rightarrow> chart \<Rightarrow> chart" where
  "go p scene s =
     (if scene = ''baseline'' then
        (let s1 = hideMethodologyBtn s;
             s2 = restoreFromHorrorZoom p s1;
             s3 = (if mode s2 \<noteq> Scatter
                   then drawScatter p (s2\<lparr>title_text := ''The Hit Matrix''\<rparr>)
                   else showFineNote s2);
             s4 = addQuadrantsIfNeeded s3;
             s5 = (if isHorrorFocused s4 then focusHorror False s4 else s4)
         in focusQuadrant p ''none'' s5)
      else if scene = ''quadrants'' then
        (let s1 = hideMethodologyBtn s;
             s2 = restoreFromHorrorZoom p s1;
             s3 = (if mode s2 \<noteq> Scatter then drawScatter p s2 else s2);
             s4 = addQuadrantsIfNeeded (showFineNote s3);
             s5 = (if isHorrorFocused s4 then focusHorror False s4 else s4)
         in focusQuadrant p ''none'' s5)
      else if scene = ''high-views'' then
        (let s1 = hideMethodologyBtn s;
             s2 = restoreFromHorrorZoom p s1;
             s3 = (if mode s2 \<noteq> Scatter then drawScatter p s2 else s2);
             s4 = addQuadrantsIfNeeded (showFineNote s3);
             s5 = (if isHorrorFocused s4 then focusHorror False s4 else s4)
         in focusQuadrant p ''high-views'' s5)
      else if scene = ''critical-darlings'' then
        (let s1 = hideMethodologyBtn s;
             s2 = restoreFromHorrorZoom p s1;
             s3 = (if mode s2 \<noteq> Scatter then drawScatter p s2 else s2);
             s4 = addQuadrantsIfNeeded (showFineNote s3)
         in focusQuadrant p ''critical-darlings'' s4)
      else if scene = ''horror'' then
        (let s1 = hideMethodologyBtn s;
             s2 = restoreFromHorrorZoom p s1;
             s3 = (if mode s2 \<noteq> Scatter then drawScatter p s2 else s2);
             s4 = addQuadrantsIfNeeded (showFineNote s3);
             s5 = focusQuadrant p ''none'' s4
         in focusHorror True s5)
      else if scene = ''horror-zoom'' then
        (let s1 = hideMethodologyBtn s;
             s2 = (if mode s1 \<noteq> Scatter then addQuadrantsIfNeeded (drawScatter p s1) else s1);
             s3 = hideFineNote s2
         in zoomToHorror p s3)
      else if scene = ''bars'' then
        (let s1 = showMethodologyBtn s
         in if mode s1 = Bars then focusBars None s1 else crossfadeOut None s1)
      else if scene = ''bars_psychological'' then
        (let s1 = showMethodologyBtn s
         in if mode s1 = Bars
            then focusBarsBySupergroup (Some ''Psychological & Domestic Horrors'') s1
            else crossfadeOut (Some ''Psychological & Domestic Horrors'') s1)
      else if scene = ''bars_body'' then
        (let s1 = showMethodologyBtn s
         in if mode s1 = Bars
            then focusBarsBySupergroup (Some ''The Body as Battleground'') s1
            else crossfadeOut (Some ''The Body as Battleground'') s1)
      else if scene = ''bars_societal'' then
        (let s1 = showMethodologyBtn s
         in if mode s1 = Bars
            then focusBarsBySupergroup (Some ''Societal & Structural Horrors'') s1
            else crossfadeOut (Some ''Societal & Structural Horrors'') s1)
      else if scene = ''bars_cosmic'' then
        (let s1 = showMethodologyBtn s
         in if mode s1 = Bars
            then focusBarsBySupergroup (Some ''Cosmic & Moral Reckonings'') s1
            else crossfadeOut (Some ''Cosmic & Moral Reckonings'') s1)
      else s)"

text \<open>
  The deferred pieces. \<open>FadeEnd g\<close> is the callback that the bar scenes give to
  \<^verbatim>\<open>crossfadeOut\<close>: \<^verbatim>\<open>drawFearBars(); crossfadeIn([gChart, gAxis], ...)\<close>, followed for a
  supergroup scene by \<^verbatim>\<open>setTimeout(() => focusBarsBySupergroup(g), 300)\<close>. \<open>CsvLoaded\<close> is
  the assignment \<^verbatim>\<open>fearRows = await d3.csv(...)\<close> and what follows it in the renderer.
\<close>

fun run_task :: "page \<Rightarrow> task \<Rightarrow> chart \<Rightarrow> chart" where
  "run_task p (FadeEnd g) s =
     (let s1 = crossfadeIn (drawFearBars s)
      in case g of
           None \<Rightarrow> s1
         | Some name \<Rightarrow> s1\<lparr>pending := pending s1 @ [FocusTimer name]\<rparr>)"
| "run_task p (CsvLoaded Flat) s =
     drawFearBars_rest (csv_manualfix p) (s\<lparr>fearRows := Some (csv_manualfix p)\<rparr>)"
| "run_task p (CsvLoaded Grouped) s =
     drawFearBarsGrouped_rest (csv_clean p) (s\<lparr>fearRows := Some (csv_clean p)\<rparr>)"
| "run_task p (FocusTimer name) s = focusBarsBySupergroup (Some name) s"

text \<open>
  Letting the page come to rest: the deferred pieces run in the order in which they
  were left, each possibly leaving more, until none is left. (Whether a CSV file arrives
  before the 300 ms timer fires is a matter of real time; here the file comes first.)
\<close>

fun task_weight :: "task \<Rightarrow> nat" where
  "task_weight (FadeEnd g) = 3"
| "task_weight (CsvLoaded k) = 1"
| "task_weight (FocusTimer name) = 1"

function settle :: "page \<Rightarrow> chart \<Rightarrow> chart" where
  "settle p s =
     (case pending s of
        [] \<Rightarrow> s
      | t # ts \<Rightarrow> settle p (run_task p t (s\<lparr>pending := ts\<rparr>)))"
  by pat_completeness auto
termination
proof (relation "measure (\<lambda>(p, s). sum_list (map task_weight (pending s)))")
  show "wf (measure (\<lambda>(p, s). sum_list (map task_weight (pending s))))"
    by simp
next
  fix p :: page and s :: chart and t ts
  assume "pending s = t # ts"
  moreover have "sum_list (map task_weight (pending (run_task p t (s\<lparr>pending := ts\<rparr>))))
        < task_weight t + sum_list (map task_weight ts)"
  proof (cases t)
    case (FadeEnd g)
    then show ?thesis
      by (cases g; cases "fearRows s")
         (simp_all add: drawFearBars_def drawFearBars_rest_def crossfadeIn_def hideFineNote_def
            log_def clear_layers_def Let_def)
  next
    case (CsvLoaded k)
    then show ?thesis
      by (cases k)
         (simp_all add: drawFearBars_rest_def drawFearBarsGrouped_rest_def clear_layers_def Let_def)
  next
    case (FocusTimer name)
    then show ?thesis
      by (simp add: focusBarsBySupergroup_def log_def Let_def)
  qed
  ultimately show "((p, run_task p t (s\<lparr>pending := ts\<rparr>)), (p, s))
        \<in> measure (\<lambda>(p, s). sum_list (map task_weight (pending s)))"
    by simp
qed

text \<open>A scene is issued and the page comes to rest; a sequence of scenes one by one.\<close>

definition issue :: "page \<Rightarrow> string \<Rightarrow> chart \<Rightarrow> chart" where
  "issue p scene s = settle p (go p scene s)"

definition run_scenes :: "page \<Rightarrow> string list \<Rightarrow> chart \<Rightarrow> chart" where
  "run_scenes p scenes s = foldl (\<lambda>s scene. issue p scene s) s scenes"

text \<open>
  The page before the script has drawn anything: \<^verbatim>\<open>mode = "none"\<close>, no rows, no flag
  set, nothing pending. The texts of the title and subtitle come from the HTML of the
  page and are taken empty.
\<close>

definition cold :: chart where
  "cold =
     \<lparr>mode = ModeNone, fearRows = None, quadrantsAdded = False, isHorrorFocused = False,
      title_text = [], subtitle_text = [], note_hidden = False, methodology_btn = Some [],
      bubbles = [], labels = [], bars = [], axes = None, axis_text_opacity = None,
      guides = [], legend_drawn = False, center_label = False,
      chart_opacity = None, axis_opacity = None, legend_opacity = None,
      trace = [], pending = [], fetched = []\<rparr>"

declare settle.simps [simp del]

section \<open>The scroll engine\<close>

text \<open>
  A narrative card \<^verbatim>\<open>.step\<close> with its bounding rectangle at the time of the event
  (\<^verbatim>\<open>bottom = top + height\<close>) and its \<^verbatim>\<open>data-\<close> attributes; the cards in document order
  and the height of the window make up what \<^verbatim>\<open>setActiveByCenter\<close> reads from the page.
\<close>

record card =
  card_top :: real
  card_height :: real
  data_scene :: "string option"
  data_title :: "string option"
  data_subtitle :: "string option"

record viewport =
  steps :: "card list"
  innerHeight :: real

text \<open>
  The variables of the engine; a card is referred to by its position in \<^verbatim>\<open>steps\<close>.
  \<open>is_active\<close> is the set of cards that carry the class \<^verbatim>\<open>is-active\<close>.
\<close>

record engine =
  armed :: bool
  active :: "nat option"
  baselineRendered :: bool
  is_active :: "nat set"
  viz :: chart

definition applyStepTitle :: "card \<Rightarrow> chart \<Rightarrow> chart" where
  "applyStepTitle stepEl s =
     (let s1 = log ApplyStepTitle s
      in if falsy (data_title stepEl) then s1
         else if mode s1 = Bars then s1
         else s1\<lparr>title_text := case_option [] id (data_title stepEl)\<rparr>)"

definition applyStepSubtitle :: "card \<Rightarrow> chart \<Rightarrow> chart" where
  "applyStepSubtitle stepEl s =
     (let s1 = log ApplyStepSubtitle s
      in if mode s1 = Bars then s1
         else if falsy (data_subtitle stepEl) then s1
         else s1\<lparr>subtitle_text := case_option [] id (data_subtitle stepEl)\<rparr>)"

definition applyStepFX :: "chart \<Rightarrow> chart" where
  "applyStepFX s = log ApplyStepFX s"

definition rect_bottom :: "card \<Rightarrow> real" where
  "rect_bottom c = card_top c + card_height c"

text \<open>
  The loop \<^verbatim>\<open>steps.forEach\<close> of \<^verbatim>\<open>setActiveByCenter\<close> over the numbered cards; the pair is
  \<^verbatim>\<open>best\<close> and \<^verbatim>\<open>bestDist\<close>, with \<open>None\<close> for \<^verbatim>\<open>null\<close> and for \<^verbatim>\<open>Infinity\<close>.
\<close>

fun scan_steps :: "real \<Rightarrow> (nat \<times> card) list \<Rightarrow> (nat \<times> card) option \<times> real option
                   \<Rightarrow> (nat \<times> card) option \<times> real option" where
  "scan_steps H [] acc = acc"
| "scan_steps H ((i, el) # rest) (best, bestDist) =
     (if rect_bottom el \<le> 0 \<or> card_top el \<ge> H then scan_steps H rest (best, bestDist)
      else
        (let mid = H / 2;
             center = card_top el + card_height el / 2;
             dist = \<bar>center - mid\<bar>
         in if (case bestDist of None \<Rightarrow> True | Some b \<Rightarrow> dist < b)
            then scan_steps H rest (Some (i, el), Some dist)
            else scan_steps H rest (best, bestDist)))"

definition best_step :: "viewport \<Rightarrow> (nat \<times> card) option" where
  "best_step v =
     fst (scan_steps (innerHeight v) (zip [0..<length (steps v)] (steps v)) (None, None))"

definition setActiveByCenter :: "page \<Rightarrow> viewport \<Rightarrow> engine \<Rightarrow> engine" where
  "setActiveByCenter p v e =
     (if \<not> armed e then e
      else case best_step v of
             None \<Rightarrow> e
           | Some (b, el) \<Rightarrow>
               if active e = Some b then e
               else
                 (let e1 = (case active e of
                              None \<Rightarrow> e
                            | Some a \<Rightarrow> e\<lparr>is_active := is_active e - {a}\<rparr>);
                      e2 = e1\<lparr>active := Some b\<rparr>;
                      e3 = e2\<lparr>is_active := insert b (is_active e2)\<rparr>;
                      c1 = applyStepTitle el (viz e3);
                      c2 = applyStepSubtitle el c1;
                      c3 = applyStepFX c2;
                      scene = (if falsy (data_scene el) then ''noop''
                               else case_option [] id (data_scene el))
                  in e3\<lparr>viz := go p scene c3\<rparr>))"

text \<open>The callback of the \<^verbatim>\<open>IntersectionObserver\<close> on the chart container.\<close>

definition on_intersection :: "page \<Rightarrow> viewport \<Rightarrow> bool \<Rightarrow> real \<Rightarrow> engine \<Rightarrow> engine" where
  "on_intersection p v isIntersecting intersectionRatio e =
     (let e1 = (if \<not> baselineRendered e \<and> isIntersecting
                then e\<lparr>baselineRendered := True,
                       viz := addQuadrantsIfNeeded
                                (drawScatter p ((viz e)\<lparr>title_text := ''The Hit Matrix''\<rparr>))\<rparr>
                else e);
          e2 = e1\<lparr>armed := (isIntersecting \<and> intersectionRatio \<ge> 3 / 10)\<rparr>
      in if armed e2 then setActiveByCenter p v e2 else e2)"

section \<open>Notions used to state the properties\<close>

text \<open>The position at which a value first occurs in a list.\<close>

definition first_index :: "'a list \<Rightarrow> 'a \<Rightarrow> nat" where
  "first_index xs a = length (takeWhile (\<lambda>b. b \<noteq> a) xs)"

text \<open>Descending by a count, and by a second order among equal counts.\<close>

definition desc_then :: "('a \<Rightarrow> nat) \<Rightarrow> ('a \<Rightarrow> 'a \<Rightarrow> bool) \<Rightarrow> 'a \<Rightarrow> 'a \<Rightarrow> bool" where
  "desc_then c R a b = (c b < c a \<or> (c a = c b \<and> R a b))"

text \<open>
  The order of two bars of the ungrouped chart: the larger count first, and of two equal
  counts first the label that occurs first among the labels \<open>L\<close> of the source rows.
\<close>

definition bar_before :: "string list \<Rightarrow> fear_bar \<Rightarrow> fear_bar \<Rightarrow> bool" where
  "bar_before L a b =
     (fear_count b < fear_count a \<or>
      (fear_count a = fear_count b \<and> first_index L (fear a) < first_index L (fear b)))"

text \<open>
  Rows for the example of the bar order: twelve rows of one label, twelve of a second
  whose first row comes later, nine of a third, and a non-canonical, a missing and an
  empty label.
\<close>

definition demo_fear_rows :: "fear_row list" where
  "demo_fear_rows =
     map (\<lambda>c. \<lparr>Fear_Category = c\<rparr>)
       ([Some '' Grief & Familial Trauma '', Some ''Contagion & Mutation'', Some ''Slashers'',
         None, Some [], Some ''Possession & Loss of Agency'']
        @ replicate 11 (Some ''Contagion & Mutation'')
        @ replicate 8 (Some ''Possession & Loss of Agency'')
        @ replicate 11 (Some ''Grief & Familial Trauma''))"

text \<open>The number of exploded (movie, genre) rows of a genre.\<close>

definition membership_count :: "(string \<Rightarrow> real option) \<Rightarrow> movie_row list \<Rightarrow> string \<Rightarrow> nat" where
  "membership_count num movies g = length (filter (\<lambda>e. ex_genre e = g) (exploded num movies))"

text \<open>The genres that the scatter shows: those of its bubbles and those of its labels.\<close>

definition bubble_genres :: "chart \<Rightarrow> string list" where
  "bubble_genres s = map (\<lambda>b. genre (datum b)) (bubbles s)"

definition label_genres :: "chart \<Rightarrow> string list" where
  "label_genres s = map (\<lambda>l. genre (l_datum l)) (labels s)"

text \<open>All genres on the chart are among \<open>G\<close>.\<close>

definition shown_within :: "string set \<Rightarrow> chart \<Rightarrow> bool" where
  "shown_within G s = (set (bubble_genres s) \<subseteq> G \<and> set (label_genres s) \<subseteq> G)"

definition bubble_summary :: "bubble \<Rightarrow> string \<times> nat \<times> real option" where
  "bubble_summary b = (genre (datum b), count (datum b), radius b)"

text \<open>
  A small page for the examples: twenty dramas, five of them also horror, and one
  thriller that is also a mystery; the number parser knows the two numerals that occur.
\<close>

definition demo_num :: "string \<Rightarrow> real option" where
  "demo_num s = (if s = ''1000'' then Some 1000 else if s = ''7'' then Some 7 else None)"

definition demo_movies :: "movie_row list" where
  "demo_movies =
     replicate 15 \<lparr>OMDb_Genre = Some ''Drama'', Views = Some ''1,000'', OMDb_imdbRating = Some ''7''\<rparr>
     @ replicate 5 \<lparr>OMDb_Genre = Some ''Drama, Horror'', Views = Some ''1,000'', OMDb_imdbRating = Some ''7''\<rparr>
     @ [\<lparr>OMDb_Genre = Some ''Thriller, Mystery'', Views = Some ''1,000'', OMDb_imdbRating = Some ''7''\<rparr>,
        \<lparr>OMDb_Genre = Some ''Western'', Views = None, OMDb_imdbRating = Some ''7''\<rparr>]"

definition demo_page :: page where
  "demo_page =
     \<lparr>genreData = genreData_of demo_num demo_movies,
      csv_manualfix = demo_fear_rows,
      csv_clean = demo_fear_rows\<rparr>"

text \<open>The scene identifiers that the router has a branch for, and two parts of them.\<close>

definition recognized_scenes :: "string list" where
  "recognized_scenes =
     [''baseline'', ''quadrants'', ''high-views'', ''critical-darlings'', ''horror'',
      ''horror-zoom'', ''bars'', ''bars_psychological'', ''bars_body'', ''bars_societal'',
      ''bars_cosmic'']"

definition restoring_scenes :: "string list" where
  "restoring_scenes =
     [''baseline'', ''quadrants'', ''high-views'', ''critical-darlings'', ''horror'']"

definition bar_scenes :: "string list" where
  "bar_scenes =
     [''bars'', ''bars_psychological'', ''bars_body'', ''bars_societal'', ''bars_cosmic'']"

text \<open>The calls logged between an earlier and a later state.\<close>

definition calls_since :: "chart \<Rightarrow> chart \<Rightarrow> call list" where
  "calls_since s s' = drop (length (trace s)) (trace s')"

text \<open>The supergroup that a bar scene focuses; none for \<^verbatim>\<open>bars\<close>.\<close>

definition bar_scene_group :: "string \<Rightarrow> string option" where
  "bar_scene_group scene =
     (if scene = ''bars_psychological'' then Some ''Psychological & Domestic Horrors''
      else if scene = ''bars_body'' then Some ''The Body as Battleground''
      else if scene = ''bars_societal'' then Some ''Societal & Structural Horrors''
      else if scene = ''bars_cosmic'' then Some ''Cosmic & Moral Reckonings''
      else None)"

text \<open>
  A bar chart is due when it is drawn already or when a deferred piece that draws it is
  waiting.
\<close>

definition bar_task :: "task \<Rightarrow> bool" where
  "bar_task t = (case t of FocusTimer name \<Rightarrow> False | _ \<Rightarrow> True)"

definition bars_due :: "chart \<Rightarrow> bool" where
  "bars_due s = (mode s = Bars \<or> list_ex bar_task (pending s))"




text \<open>
  A bar renderer is called and awaited; several of them one after the other. Each has
  its own file.
\<close>

definition render :: "page \<Rightarrow> renderer \<Rightarrow> chart \<Rightarrow> chart" where
  "render p k s = settle p (case k of Flat \<Rightarrow> drawFearBars s | Grouped \<Rightarrow> drawFearBarsGrouped s)"

definition render_all :: "page \<Rightarrow> renderer list \<Rightarrow> chart \<Rightarrow> chart" where
  "render_all p ks s = foldl (\<lambda>s k. render p k s) s ks"

definition renderer_file :: "renderer \<Rightarrow> string" where
  "renderer_file k =
     (case k of Flat \<Rightarrow> ''./horror_categorized_clean_manualfix.csv''
              | Grouped \<Rightarrow> ''./horror_categorized_clean.csv'')"

definition file_rows :: "page \<Rightarrow> renderer \<Rightarrow> fear_row list" where
  "file_rows p k = (case k of Flat \<Rightarrow> csv_manualfix p | Grouped \<Rightarrow> csv_clean p)"

definition bars_of :: "renderer \<Rightarrow> fear_row list \<Rightarrow> bar list" where
  "bars_of k rows =
     (case k of Flat \<Rightarrow> map new_fear_bar (fear_counts rows)
              | Grouped \<Rightarrow> map new_group_bar (grouped_counts rows))"

text \<open>
  The cache after a first renderer \<open>k0\<close> and a last renderer \<open>k\<close>: the rows are those of
  the file of \<open>k0\<close>, which is the only file requested, and the bars are those of \<open>k\<close>
  on these rows.
\<close>

definition cached :: "page \<Rightarrow> renderer \<Rightarrow> renderer \<Rightarrow> chart \<Rightarrow> bool" where
  "cached p k0 k s =
     (fearRows s = Some (file_rows p k0) \<and> pending s = [] \<and> fetched s = [renderer_file k0]
      \<and> bars s = bars_of k (file_rows p k0))"

text \<open>
  A card is in view when it is neither wholly above nor wholly below the window; its
  distance is that of its vertical centre from the centre of the window. The card at
  position \<open>i\<close> is the nearest one when it is in view, no card in view is nearer, and
  every card in view that is as near comes later in the document.
\<close>

definition in_view :: "real \<Rightarrow> card \<Rightarrow> bool" where
  "in_view H c = (0 < rect_bottom c \<and> card_top c < H)"

definition center_dist :: "real \<Rightarrow> card \<Rightarrow> real" where
  "center_dist H c = \<bar>card_top c + card_height c / 2 - H / 2\<bar>"

definition nearest_first :: "viewport \<Rightarrow> nat \<Rightarrow> bool" where
  "nearest_first v i =
     (i < length (steps v) \<and> in_view (innerHeight v) (steps v ! i) \<and>
      (\<forall>j < length (steps v). in_view (innerHeight v) (steps v ! j) \<longrightarrow>
          center_dist (innerHeight v) (steps v ! i) \<le> center_dist (innerHeight v) (steps v ! j)
          \<and> (center_dist (innerHeight v) (steps v ! j) = center_dist (innerHeight v) (steps v ! i)
               \<longrightarrow> i \<le> j)))"

text \<open>
  The invariant of the loop of \<^verbatim>\<open>setActiveByCenter\<close> over the numbered cards \<open>seen\<close> so
  far.
\<close>

definition scan_good :: "real \<Rightarrow> (nat \<times> card) list \<Rightarrow> (nat \<times> card) option \<times> real option \<Rightarrow> bool" where
  "scan_good H seen acc =
     (case fst acc of
        None \<Rightarrow> snd acc = None \<and> (\<forall>(j, c) \<in> set seen. \<not> in_view H c)
      | Some (i, c) \<Rightarrow>
          snd acc = Some (center_dist H c) \<and> (i, c) \<in> set seen \<and> in_view H c \<and>
          (\<forall>(j, c') \<in> set seen. in_view H c' \<longrightarrow>
              center_dist H c \<le> center_dist H c'
              \<and> (center_dist H c' = center_dist H c \<longrightarrow> i \<le> j)))"

text \<open>
  The example of the three cards: centres at 100, 400 and 900 pixels in a window of
  height 800, the engine armed and the third card active before.
\<close>

definition demo_viewport :: viewport where
  "demo_viewport =
     \<lparr>steps =
        [\<lparr>card_top = 50, card_height = 100, data_scene = Some ''baseline'',
          data_title = Some ''The Hit Matrix'', data_subtitle = None\<rparr>,
         \<lparr>card_top = 350, card_height = 100, data_scene = Some ''horror'',
          data_title = None, data_subtitle = None\<rparr>,
         \<lparr>card_top = 850, card_height = 100, data_scene = None,
          data_title = None, data_subtitle = None\<rparr>],
      innerHeight = 800\<rparr>"

definition demo_engine :: engine where
  "demo_engine =
     \<lparr>armed = True, active = Some 2, baselineRendered = False, is_active = {2}, viz = cold\<rparr>"

section \<open>Grouping and sorting\<close>
lemma group_push_keys:
  "map fst (group_push k x g) = (if k \<in> fst ` set g then map fst g else map fst g @ [k])"
  by (induction g) (force split: if_splits)+

lemma group_push_sum:
  "sum_list (map (\<lambda>(k, v). length v) (group_push k x g)) = Suc (sum_list (map (\<lambda>(k, v). length v) g))"
  by (induction g) auto

lemma group_push_lookup:
  "map_of (group_push k x g) =
     (map_of g)(k \<mapsto> (case map_of g k of None \<Rightarrow> [x] | Some v \<Rightarrow> v @ [x]))"
  by (induction g) (auto simp: fun_eq_iff)

lemma d3_group_snoc: "d3_group key (xs @ [x]) = group_push (key x) x (d3_group key xs)"
  by (simp add: d3_group_def)

lemma d3_group_Nil: "d3_group key [] = []"
  by (simp add: d3_group_def)

lemma d3_group_sum: "sum_list (map (\<lambda>(k, v). length v) (d3_group key xs)) = length xs"
  by (induction xs rule: rev_induct) (simp_all add: d3_group_Nil d3_group_snoc group_push_sum)

lemma d3_group_keys_set: "fst ` set (d3_group key xs) = key ` set xs"
proof (induction xs rule: rev_induct)
  case Nil show ?case by (simp add: d3_group_Nil)
next
  case (snoc x xs)
  have "set (map fst (d3_group key (xs @ [x]))) = insert (key x) (fst ` set (d3_group key xs))"
    unfolding d3_group_snoc group_push_keys by auto
  then show ?case using snoc by auto
qed

lemma d3_group_distinct: "distinct (map fst (d3_group key xs))"
proof (induction xs rule: rev_induct)
  case Nil show ?case by (simp add: d3_group_Nil)
next
  case (snoc x xs)
  then show ?case unfolding d3_group_snoc group_push_keys by auto
qed

lemma d3_group_lookup:
  "map_of (d3_group key xs) k =
     (if k \<in> key ` set xs then Some (filter (\<lambda>x. key x = k) xs) else None)"
proof (induction xs rule: rev_induct)
  case Nil show ?case by (simp add: d3_group_Nil)
next
  case (snoc x xs)
  have e: "k \<notin> key ` set xs \<Longrightarrow> filter (\<lambda>x. key x = k) xs = []"
    by (auto simp: filter_empty_conv)
  show ?case
  proof (cases "k = key x")
    case True
    then show ?thesis unfolding d3_group_snoc group_push_lookup using snoc e
      by (cases "key x \<in> key ` set xs") simp_all
  next
    case False
    then show ?thesis unfolding d3_group_snoc group_push_lookup using snoc by simp
  qed
qed

lemma d3_group_vals:
  assumes "(k, v) \<in> set (d3_group key xs)"
  shows "v = filter (\<lambda>x. key x = k) xs"
proof -
  from assms have "map_of (d3_group key xs) k = Some v"
    by (simp add: d3_group_distinct)
  then show ?thesis by (simp add: d3_group_lookup split: if_splits)
qed


lemma first_index_less: "a \<in> set xs \<Longrightarrow> first_index xs a < length xs"
  unfolding first_index_def by (induction xs) auto

lemma first_index_append_old: "a \<in> set xs \<Longrightarrow> first_index (xs @ ys) a = first_index xs a"
  unfolding first_index_def by (induction xs) auto

lemma first_index_append_new: "a \<notin> set xs \<Longrightarrow> first_index (xs @ [a]) a = length xs"
  unfolding first_index_def by (induction xs) auto

lemma d3_group_order:
  "sorted_wrt (\<lambda>a b. first_index (map key xs) a < first_index (map key xs) b)
     (map fst (d3_group key xs))"
proof (induction xs rule: rev_induct)
  case Nil show ?case by (simp add: d3_group_Nil)
next
  case (snoc x xs)
  let ?K = "map fst (d3_group key xs)"
  have ks: "set ?K = key ` set xs" using d3_group_keys_set[of key xs] by simp
  have old: "sorted_wrt (\<lambda>a b. first_index (map key (xs @ [x])) a < first_index (map key (xs @ [x])) b) ?K"
  proof (rule sorted_wrt_mono_rel[OF _ snoc])
    fix a b assume "a \<in> set ?K" "b \<in> set ?K"
      and "first_index (map key xs) a < first_index (map key xs) b"
    then show "first_index (map key (xs @ [x])) a < first_index (map key (xs @ [x])) b"
      using ks by (simp add: first_index_append_old)
  qed
  show ?case
  proof (cases "key x \<in> key ` set xs")
    case True
    then show ?thesis using old unfolding d3_group_snoc group_push_keys
      by (simp add: d3_group_keys_set)
  next
    case False
    have "\<forall>a\<in>set ?K. first_index (map key (xs @ [x])) a < first_index (map key (xs @ [x])) (key x)"
      using False ks first_index_append_new[of "key x" "map key xs"]
        first_index_less[of _ "map key xs"] by (auto simp: first_index_append_old)
    then show ?thesis using old False unfolding d3_group_snoc group_push_keys
      by (simp add: d3_group_keys_set sorted_wrt_append)
  qed
qed

lemma set_sort_insert: "set (sort_insert cmp x ys) = insert x (set ys)"
  by (induction ys) auto

lemma set_js_sort: "set (js_sort cmp xs) = set xs"
  by (induction xs) (simp_all add: js_sort_def set_sort_insert)

lemma sum_sort_insert: "sum_list (map f (sort_insert cmp x ys)) = f x + sum_list (map (f::'a \<Rightarrow> nat) ys)"
  by (induction ys) auto

lemma sum_js_sort: "sum_list (map f (js_sort cmp xs)) = sum_list (map (f::'a \<Rightarrow> nat) xs)"
  by (induction xs) (simp_all add: js_sort_def sum_sort_insert)

lemma distinct_sort_insert: "distinct (map f (sort_insert cmp x ys)) = distinct (map f (x # ys))"
  by (induction ys) (auto simp: set_sort_insert)

lemma distinct_js_sort: "distinct (map f (js_sort cmp xs)) = distinct (map f xs)"
proof (induction xs)
  case Nil show ?case by (simp add: js_sort_def)
next
  case (Cons x xs)
  have "js_sort cmp (x # xs) = sort_insert cmp x (js_sort cmp xs)" by (simp add: js_sort_def)
  then show ?case using Cons by (simp add: distinct_sort_insert set_js_sort)
qed


lemma sort_insert_desc:
  assumes "sorted_wrt (desc_then c R) ys" "\<forall>y\<in>set ys. R x y"
  shows "sorted_wrt (desc_then c R) (sort_insert (\<lambda>a b. d3_descending (c a) (c b)) x ys)"
  using assms
proof (induction ys)
  case Nil then show ?case by simp
next
  case (Cons y ys)
  show ?case
  proof (cases "d3_descending (c x) (c y) \<le> 0")
    case True
    then have xy: "c y \<le> c x" by (simp add: d3_descending_def split: if_splits)
    have "\<forall>z\<in>set (y # ys). desc_then c R x z"
      using Cons.prems xy by (auto simp: desc_then_def)
    then show ?thesis using True Cons.prems by simp
  next
    case False
    then have xy: "c x < c y" by (simp add: d3_descending_def split: if_splits)
    have "sorted_wrt (desc_then c R) (sort_insert (\<lambda>a b. d3_descending (c a) (c b)) x ys)"
      using Cons by simp
    moreover have "\<forall>z\<in>set (sort_insert (\<lambda>a b. d3_descending (c a) (c b)) x ys). desc_then c R y z"
      using Cons.prems xy by (auto simp: set_sort_insert desc_then_def)
    ultimately show ?thesis using False by simp
  qed
qed

lemma js_sort_desc:
  "sorted_wrt R xs \<Longrightarrow>
   sorted_wrt (desc_then c R) (js_sort (\<lambda>a b. d3_descending (c a) (c b)) xs)"
proof (induction xs)
  case Nil show ?case by (simp add: js_sort_def)
next
  case (Cons x xs)
  have "js_sort (\<lambda>a b. d3_descending (c a) (c b)) (x # xs)
      = sort_insert (\<lambda>a b. d3_descending (c a) (c b)) x (js_sort (\<lambda>a b. d3_descending (c a) (c b)) xs)"
    by (simp add: js_sort_def)
  then show ?case using Cons by (simp add: sort_insert_desc set_js_sort)
qed

lemma count_list_map_filter: "count_list (map f xs) k = length (filter (\<lambda>x. f x = k) xs)"
  by (induction xs) auto

lemma first_index_Cons: "first_index (x # xs) a = (if x = a then 0 else Suc (first_index xs a))"
  by (simp add: first_index_def)

lemma first_index_filter:
  assumes "a \<in> S" "b \<in> S"
  shows "first_index (map key (filter (\<lambda>x. key x \<in> S) xs)) a
           < first_index (map key (filter (\<lambda>x. key x \<in> S) xs)) b
       \<longleftrightarrow> first_index (map key xs) a < first_index (map key xs) b"
  using assms by (induction xs) (auto simp: first_index_Cons)

lemma fear_counts_keys:
  "map fear (map (\<lambda>(f, c). \<lparr>fear = f, fear_count = c\<rparr>) (d3_rollups length key xs))
     = map fst (d3_group key xs)"
  by (simp add: d3_rollups_def case_prod_beta comp_def)

lemma rollups_entry:
  assumes "e \<in> set (map (\<lambda>(f, c). \<lparr>fear = f, fear_count = c\<rparr>) (d3_rollups length key xs))"
  shows "fear_count e = length (filter (\<lambda>x. key x = fear e) xs)"
proof -
  from assms obtain k v where kv: "(k, v) \<in> set (d3_group key xs)"
    and e: "e = \<lparr>fear = k, fear_count = length v\<rparr>"
    by (auto simp: d3_rollups_def)
  from d3_group_vals[OF kv] e show ?thesis by simp
qed

text \<open>
  C6. For every list of fear-label rows, the counts of the ungrouped bar chart have one
  entry for every canonical label that occurs among the (trimmed) labels of the rows and
  no other entry, so blank and non-canonical labels are dropped; the count of an entry is
  the number of rows with its label; and the entries are in descending order of count,
  entries of equal count in the order in which their labels first occur in the rows.
\<close>

theorem fear_counts_sorted_stable:
  "distinct (map fear (fear_counts rows))
   \<and> set (map fear (fear_counts rows)) = set (map fear_label rows) \<inter> FEAR_SET
   \<and> map fear_count (fear_counts rows)
       = map (\<lambda>e. count_list (map fear_label rows) (fear e)) (fear_counts rows)
   \<and> sorted_wrt (bar_before (map fear_label rows)) (fear_counts rows)"
proof -
  let ?F = "fear_filtered rows"
  define E where "E = map (\<lambda>(f, c). \<lparr>fear = f, fear_count = c\<rparr>) (d3_rollups length fear_label ?F)"
  let ?cmp = "\<lambda>a b. d3_descending (fear_count a) (fear_count b)"
  let ?L = "map fear_label rows"
  have out: "fear_counts rows = js_sort ?cmp E" by (simp add: fear_counts_def E_def)
  have keys: "map fear E = map fst (d3_group fear_label ?F)"
    unfolding E_def by (rule fear_counts_keys)
  have kset: "set (map fear E) = set ?L \<inter> FEAR_SET"
    unfolding keys using d3_group_keys_set[of fear_label ?F]
    by (auto simp: fear_filtered_def)
  have 1: "distinct (map fear (fear_counts rows))"
    unfolding out distinct_js_sort keys by (rule d3_group_distinct)
  have 2: "set (map fear (fear_counts rows)) = set ?L \<inter> FEAR_SET"
  proof -
    have "set (map fear (js_sort ?cmp E)) = set (map fear E)"
      by (simp only: set_map set_js_sort)
    with kset show ?thesis by (simp only: out)
  qed
  have cnt: "fear_count e = count_list ?L (fear e)" if "e \<in> set E" for e
  proof -
    from that have "fear e \<in> set (map fear E)" by simp
    then have inS: "fear e \<in> FEAR_SET" using kset by blast
    have "fear_count e = length (filter (\<lambda>x. fear_label x = fear e) ?F)"
      using that rollups_entry[of e fear_label ?F] by (simp only: E_def)
    also have "\<dots> = length (filter (\<lambda>x. fear_label x = fear e) rows)"
      using inS by (auto simp: fear_filtered_def intro!: arg_cong[where f=length] filter_cong)
    finally show ?thesis by (simp add: count_list_map_filter)
  qed
  have 3: "map fear_count (fear_counts rows)
       = map (\<lambda>e. count_list ?L (fear e)) (fear_counts rows)"
    using cnt by (simp add: out set_js_sort)
  have ord0: "sorted_wrt (\<lambda>a b. first_index (map fear_label ?F) a < first_index (map fear_label ?F) b)
      (map fear E)"
    unfolding keys by (rule d3_group_order)
  have ord1: "sorted_wrt (\<lambda>a b. first_index ?L (fear a) < first_index ?L (fear b)) E"
  proof -
    have "sorted_wrt (\<lambda>a b. first_index ?L a < first_index ?L b) (map fear E)"
    proof (rule sorted_wrt_mono_rel[OF _ ord0])
      fix a b assume "a \<in> set (map fear E)" "b \<in> set (map fear E)"
        and lt: "first_index (map fear_label ?F) a < first_index (map fear_label ?F) b"
      then have "a \<in> FEAR_SET" "b \<in> FEAR_SET" using kset by blast+
      from first_index_filter[OF this, of fear_label rows] lt
      show "first_index ?L a < first_index ?L b" by (simp add: fear_filtered_def)
    qed
    then show ?thesis by (simp add: sorted_wrt_map)
  qed
  have "sorted_wrt (desc_then fear_count (\<lambda>a b. first_index ?L (fear a) < first_index ?L (fear b)))
          (js_sort ?cmp E)"
    by (rule js_sort_desc[OF ord1])
  then have 4: "sorted_wrt (bar_before ?L) (fear_counts rows)"
    unfolding out by (rule sorted_wrt_mono_rel[rotated]) (simp add: desc_then_def bar_before_def)
  from 1 2 3 4 show ?thesis by blast
qed

theorem fear_counts_example:
  "fear_counts demo_fear_rows =
     [\<lparr>fear = ''Grief & Familial Trauma'', fear_count = 12\<rparr>,
      \<lparr>fear = ''Contagion & Mutation'', fear_count = 12\<rparr>,
      \<lparr>fear = ''Possession & Loss of Agency'', fear_count = 9\<rparr>]
   \<and> sorted_wrt (bar_before (map fear_label demo_fear_rows)) (fear_counts demo_fear_rows)"
proof -
  have "fear_counts demo_fear_rows =
     [\<lparr>fear = ''Grief & Familial Trauma'', fear_count = 12\<rparr>,
      \<lparr>fear = ''Contagion & Mutation'', fear_count = 12\<rparr>,
      \<lparr>fear = ''Possession & Loss of Agency'', fear_count = 9\<rparr>]"
    by code_simp
  with fear_counts_sorted_stable[of demo_fear_rows] show ?thesis by blast
qed

lemma canonical_mapped:
  "l \<in> FEAR_SET \<Longrightarrow> \<exists>g. FEAR_GROUP_MAP l = Some g \<and> g \<noteq> [] \<and> g \<noteq> ''Unmapped''"
  unfolding FEAR_SET_def FEAR_CATEGORY_NAMES_def FEAR_GROUP_MAP_def FEAR_GROUP_ENTRIES_def
  by auto

lemma rollups_sum: "sum_list (map snd (d3_rollups length key xs)) = length xs"
  using d3_group_sum[of key xs] by (simp add: d3_rollups_def case_prod_unfold comp_def)

lemma group_key_mapped:
  assumes "fear_label d \<in> FEAR_SET"
  shows "group_key d \<noteq> ''Unmapped'' \<and> FEAR_GROUP_MAP (fear_label d) = Some (group_key d)"
  using canonical_mapped[OF assms] by (auto simp: group_key_def)

lemma rollups_keys: "fst ` set (d3_rollups reduce key xs) = key ` set xs"
  using d3_group_keys_set[of key xs] by (force simp: d3_rollups_def)

lemma grouped_nothing_unmapped:
  "filter (\<lambda>(k, c). k \<noteq> ''Unmapped'') (d3_rollups length group_key (fear_filtered rows))
     = d3_rollups length group_key (fear_filtered rows)"
proof -
  have "k \<noteq> ''Unmapped''" if "(k, c) \<in> set (d3_rollups length group_key (fear_filtered rows))" for k c
  proof -
    from that have "k \<in> fst ` set (d3_rollups length group_key (fear_filtered rows))" by force
    then obtain d where "d \<in> set (fear_filtered rows)" "k = group_key d"
      unfolding rollups_keys by blast
    then show ?thesis using group_key_mapped[of d] by (simp add: fear_filtered_def)
  qed
  then show ?thesis by (auto simp: filter_id_conv)
qed

text \<open>
  C8. For every list of fear-label rows, the counts of the grouped bar chart add up to
  the same total as the counts of the ungrouped bar chart, which is the number of rows
  with a canonical label: every one of the eleven canonical labels has a supergroup in
  \<^verbatim>\<open>FEAR_GROUP_MAP\<close> (a map, so exactly one), and none is counted as unmapped.
\<close>

theorem grouped_total_conservation:
  "sum_list (map group_count (grouped_counts rows)) = sum_list (map fear_count (fear_counts rows))
   \<and> sum_list (map fear_count (fear_counts rows)) = length (fear_filtered rows)
   \<and> list_all (\<lambda>l. FEAR_GROUP_MAP l \<noteq> None \<and> FEAR_GROUP_MAP l \<noteq> Some ''Unmapped'')
        FEAR_CATEGORY_NAMES"
proof -
  have f: "sum_list (map fear_count (fear_counts rows)) = length (fear_filtered rows)"
    unfolding fear_counts_def sum_js_sort
    using rollups_sum[of fear_label "fear_filtered rows"]
    by (simp add: case_prod_unfold comp_def)
  have g: "sum_list (map group_count (grouped_counts rows)) = length (fear_filtered rows)"
    unfolding grouped_counts_def sum_js_sort grouped_nothing_unmapped
    using rollups_sum[of group_key "fear_filtered rows"]
    by (simp add: case_prod_unfold comp_def)
  have m: "list_all (\<lambda>l. FEAR_GROUP_MAP l \<noteq> None \<and> FEAR_GROUP_MAP l \<noteq> Some ''Unmapped'')
        FEAR_CATEGORY_NAMES"
    unfolding list_all_iff using canonical_mapped by (fastforce simp: FEAR_SET_def)
  from f g m show ?thesis by simp
qed

theorem grouped_total_example:
  "sum_list (map group_count (grouped_counts demo_fear_rows)) = 33
   \<and> sum_list (map fear_count (fear_counts demo_fear_rows)) = 33"
proof -
  have "length (fear_filtered demo_fear_rows) = 33" by code_simp
  with grouped_total_conservation[of demo_fear_rows] show ?thesis by simp
qed


section \<open>The scatter: aggregates and radii\<close>

lemma demo_genreData:
  "genreData_of demo_num demo_movies =
     [\<lparr>genre = ''Drama'', count = 20, avg_imdb = Some 7, total_views = 20000\<rparr>,
      \<lparr>genre = ''Horror'', count = 5, avg_imdb = Some 7, total_views = 5000\<rparr>]"
  by (simp add: genreData_of_def rolled_def exploded_def explode_row_def demo_movies_def demo_num_def
      falsy_def trim_def is_ws_def d3_group_def d3_mean_def d3_sum_def List.map_filter_def
      eval_nat_numeral)

lemma sqrt_20: "sqrt 20 = 2 * sqrt 5"
proof -
  have "sqrt 20 = sqrt (4 * 5)" by simp
  also have "\<dots> = sqrt 4 * sqrt 5" by (rule real_sqrt_mult)
  finally show ?thesis by simp
qed

lemma demo_radii:
  "r_scale (genreData_of demo_num demo_movies) 20 = Some 50"
  "r_scale (genreData_of demo_num demo_movies) 5 = Some (55 / 2)"
  by (simp_all add: demo_genreData r_scale_def d3_max_def scale_sqrt_def Let_def sqrt_20)

lemma demo_bubbles:
  "map bubble_summary (bubbles (drawScatter demo_page cold)) =
     [(''Drama'', 20, Some 50), (''Horror'', 5, Some (55 / 2))]"
  using demo_radii
  by (simp add: drawScatter_def demo_page_def demo_genreData Let_def clear_layers_def
        showFineNote_def log_def new_bubble_def bubble_summary_def)

lemma genreData_entry:
  assumes "d \<in> set (genreData_of num movies)"
  shows "count d = membership_count num movies (genre d) \<and> 5 \<le> count d"
proof -
  from assms obtain g v where gv: "(g, v) \<in> set (d3_group ex_genre (exploded num movies))"
    and d: "genre d = g" "count d = length v" and c: "5 \<le> count d"
    by (auto simp: genreData_of_def rolled_def)
  from d3_group_vals[OF gv] d c show ?thesis by (simp add: membership_count_def)
qed

lemma set_top10: "set (top10 gd) \<subseteq> set gd"
  unfolding top10_def using set_take_subset[of 10 "js_sort (\<lambda>a b. total_views b - total_views a) gd"]
  by (simp add: set_js_sort)

lemma drawScatter_bubbles: "bubbles (drawScatter p s) = map (new_bubble (genreData p)) (genreData p)"
  by (simp add: drawScatter_def Let_def clear_layers_def)

lemma drawScatter_labels: "labels (drawScatter p s) = map new_label (top10 (genreData p))"
  by (simp add: drawScatter_def Let_def clear_layers_def)

lemma scale_sqrt_radius:
  assumes "0 < m"
  shows "scale_sqrt 0 m 5 50 c = 5 + 45 * (sqrt c / sqrt m)"
  using assms by (simp add: scale_sqrt_def Let_def algebra_simps)

lemma r_scale_genreData:
  assumes "d \<in> set gd" "\<forall>e\<in>set gd. 5 \<le> count e"
  shows "r_scale gd c = Some (5 + 45 * (sqrt (real c) / sqrt (real (Max (set (map count gd))))))"
proof -
  from assms have ne: "gd \<noteq> []" by auto
  have "count d \<le> Max (set (map count gd))" using assms(1) by (intro Max_ge) auto
  moreover have "5 \<le> count d" using assms by blast
  ultimately have "0 < Max (set (map count gd))" by linarith
  then have "0 < real (Max (set (map count gd)))" by simp
  then show ?thesis using ne by (simp add: r_scale_def d3_max_def scale_sqrt_radius)
qed

text \<open>
  C4, as the code has it. The radius scale starts at 5, not at 0: for two bubbles of the
  rendered scatter with \<open>count A = 4 * count B\<close> it is the part of the radius above 5
  that doubles, \<open>r A - 5 = 2 * (r B - 5)\<close>, and the ratio of the radii themselves is
  less than 2.
\<close>

theorem radius_above_floor_doubles:
  assumes "genreData p = genreData_of num movies"
    and "A \<in> set (bubbles (drawScatter p s))" and "B \<in> set (bubbles (drawScatter p s))"
    and "count (datum A) = 4 * count (datum B)"
  shows "\<exists>ra rb. radius A = Some ra \<and> radius B = Some rb \<and> ra - 5 = 2 * (rb - 5)
           \<and> 5 < rb \<and> ra / rb < 2"
proof -
  let ?gd = "genreData p"
  let ?m = "real (Max (set (map count ?gd)))"
  from assms(2,3) obtain a b where a: "a \<in> set ?gd" "A = new_bubble ?gd a"
    and b: "b \<in> set ?gd" "B = new_bubble ?gd b"
    by (auto simp: drawScatter_bubbles)
  have all5: "\<forall>e\<in>set ?gd. 5 \<le> count e"
    using genreData_entry[of _ num movies] assms(1) by metis
  have ra: "radius A = Some (5 + 45 * (sqrt (real (count a)) / sqrt ?m))"
    using r_scale_genreData[OF a(1) all5] a(2) by (simp add: new_bubble_def)
  have rb: "radius B = Some (5 + 45 * (sqrt (real (count b)) / sqrt ?m))"
    using r_scale_genreData[OF b(1) all5] b(2) by (simp add: new_bubble_def)
  have cnt: "count a = 4 * count b" using assms(4) a(2) b(2) by (simp add: new_bubble_def)
  define ra where "ra = 5 + 45 * (sqrt (real (count a)) / sqrt ?m)"
  define rb where "rb = 5 + 45 * (sqrt (real (count b)) / sqrt ?m)"
  have "sqrt (real (count a)) = 2 * sqrt (real (count b))"
    unfolding cnt by (simp add: real_sqrt_mult)
  then have dbl: "ra - 5 = 2 * (rb - 5)" by (simp add: ra_def rb_def)
  have "count a \<le> Max (set (map count ?gd))" using a(1) by (intro Max_ge) auto
  moreover have "5 \<le> count a" "5 \<le> count b" using all5 a(1) b(1) by auto
  ultimately have mpos: "0 < ?m" and bpos: "0 < real (count b)" by simp_all
  then have "0 < sqrt (real (count b)) / sqrt ?m" by simp
  then have gt5: "5 < rb" by (simp add: rb_def)
  have lt2: "ra / rb < 2"
    using dbl gt5 by (simp add: divide_less_eq)
  from ra rb dbl gt5 lt2 show ?thesis unfolding ra_def[symmetric] rb_def[symmetric] by blast
qed

lemma demo_membership: "membership_count demo_num demo_movies ''Thriller'' = 1"
  by (simp add: membership_count_def exploded_def explode_row_def demo_movies_def demo_num_def
      falsy_def trim_def is_ws_def eval_nat_numeral)

text \<open>
  On the example page the drama bubble has count 20 and radius 50, the horror bubble
  count 5 and radius 27.5: four times the count, but not twice the radius.
\<close>

theorem radius_ratio_counterexample:
  "map bubble_summary (bubbles (drawScatter demo_page cold))
     = [(''Drama'', 20, Some 50), (''Horror'', 5, Some (55 / 2))]
   \<and> (20::nat) = 4 * 5 \<and> (50::real) / (55 / 2) \<noteq> 2"
  using demo_bubbles by simp

theorem radius_above_floor_doubles_witness:
  "genreData demo_page = genreData_of demo_num demo_movies
   \<and> bubbles (drawScatter demo_page cold) ! 0 \<in> set (bubbles (drawScatter demo_page cold))
   \<and> bubbles (drawScatter demo_page cold) ! 1 \<in> set (bubbles (drawScatter demo_page cold))
   \<and> count (datum (bubbles (drawScatter demo_page cold) ! 0))
       = 4 * count (datum (bubbles (drawScatter demo_page cold) ! 1))
   \<and> (\<exists>ra rb. radius (bubbles (drawScatter demo_page cold) ! 0) = Some ra
         \<and> radius (bubbles (drawScatter demo_page cold) ! 1) = Some rb
         \<and> ra - 5 = 2 * (rb - 5) \<and> 5 < rb \<and> ra / rb < 2)"
proof -
  have g: "genreData demo_page = genreData_of demo_num demo_movies"
    by (simp add: demo_page_def)
  have len: "length (bubbles (drawScatter demo_page cold)) = 2"
    by (simp add: drawScatter_bubbles g demo_genreData)
  have a: "bubbles (drawScatter demo_page cold) ! 0 \<in> set (bubbles (drawScatter demo_page cold))"
    and b: "bubbles (drawScatter demo_page cold) ! 1 \<in> set (bubbles (drawScatter demo_page cold))"
    using len by simp_all
  have c: "count (datum (bubbles (drawScatter demo_page cold) ! 0))
       = 4 * count (datum (bubbles (drawScatter demo_page cold) ! 1))"
    by (simp add: drawScatter_bubbles g demo_genreData new_bubble_def)
  from radius_above_floor_doubles[OF g a b c] g a b c show ?thesis by blast
qed

section \<open>The router: what each function does\<close>

lemmas chart_defs = log_def showFineNote_def hideFineNote_def crossfadeOut_def crossfadeIn_def
  clear_layers_def drawScatter_def addQuadrantsIfNeeded_def apply_dim_def focusHorror_def
  focusQuadrant_def zoomToHorror_def restoreFromHorrorZoom_def drawFearBars_rest_def
  drawFearBars_def drawFearBarsGrouped_rest_def drawFearBarsGrouped_def focusBars_def
  focusBarsBySupergroup_def showMethodologyBtn_def hideMethodologyBtn_def

subsection \<open>The branches of the router\<close>

lemma go_baseline: "go p ''baseline'' s =
        (let s1 = hideMethodologyBtn s;
             s2 = restoreFromHorrorZoom p s1;
             s3 = (if mode s2 \<noteq> Scatter
                   then drawScatter p (s2\<lparr>title_text := ''The Hit Matrix''\<rparr>)
                   else showFineNote s2);
             s4 = addQuadrantsIfNeeded s3;
             s5 = (if isHorrorFocused s4 then focusHorror False s4 else s4)
         in focusQuadrant p ''none'' s5)"
  by (simp add: go_def)

lemma go_quadrants: "go p ''quadrants'' s =
        (let s1 = hideMethodologyBtn s;
             s2 = restoreFromHorrorZoom p s1;
             s3 = (if mode s2 \<noteq> Scatter then drawScatter p s2 else s2);
             s4 = addQuadrantsIfNeeded (showFineNote s3);
             s5 = (if isHorrorFocused s4 then focusHorror False s4 else s4)
         in focusQuadrant p ''none'' s5)"
  by (simp add: go_def)

lemma go_high_views: "go p ''high-views'' s =
        (let s1 = hideMethodologyBtn s;
             s2 = restoreFromHorrorZoom p s1;
             s3 = (if mode s2 \<noteq> Scatter then drawScatter p s2 else s2);
             s4 = addQuadrantsIfNeeded (showFineNote s3);
             s5 = (if isHorrorFocused s4 then focusHorror False s4 else s4)
         in focusQuadrant p ''high-views'' s5)"
  by (simp add: go_def)

lemma go_critical_darlings: "go p ''critical-darlings'' s =
        (let s1 = hideMethodologyBtn s;
             s2 = restoreFromHorrorZoom p s1;
             s3 = (if mode s2 \<noteq> Scatter then drawScatter p s2 else s2);
             s4 = addQuadrantsIfNeeded (showFineNote s3)
         in focusQuadrant p ''critical-darlings'' s4)"
  by (simp add: go_def)

lemma go_horror: "go p ''horror'' s =
        (let s1 = hideMethodologyBtn s;
             s2 = restoreFromHorrorZoom p s1;
             s3 = (if mode s2 \<noteq> Scatter then drawScatter p s2 else s2);
             s4 = addQuadrantsIfNeeded (showFineNote s3);
             s5 = focusQuadrant p ''none'' s4
         in focusHorror True s5)"
  by (simp add: go_def)

lemma go_horror_zoom: "go p ''horror-zoom'' s =
        (let s1 = hideMethodologyBtn s;
             s2 = (if mode s1 \<noteq> Scatter then addQuadrantsIfNeeded (drawScatter p s1) else s1);
             s3 = hideFineNote s2
         in zoomToHorror p s3)"
  by (simp add: go_def)

lemma go_bars: "go p ''bars'' s =
        (let s1 = showMethodologyBtn s
         in if mode s1 = Bars then focusBars None s1 else crossfadeOut None s1)"
  by (simp add: go_def)

lemma go_bar_scene:
  assumes "scene \<in> set bar_scenes"
  shows "go p scene s =
        (let s1 = showMethodologyBtn s
         in if mode s1 = Bars
            then (case bar_scene_group scene of
                    None \<Rightarrow> focusBars None s1
                  | Some g \<Rightarrow> focusBarsBySupergroup (Some g) s1)
            else crossfadeOut (bar_scene_group scene) s1)"
proof -
  from assms consider "scene = ''bars''" | "scene = ''bars_psychological''" | "scene = ''bars_body''"
    | "scene = ''bars_societal''" | "scene = ''bars_cosmic''"
    unfolding bar_scenes_def by fastforce
  then show ?thesis
  proof cases
    case 1 show ?thesis unfolding 1 by (simp add: go_def bar_scene_group_def Let_def)
  next
    case 2 show ?thesis unfolding 2 by (simp add: go_def bar_scene_group_def Let_def)
  next
    case 3 show ?thesis unfolding 3 by (simp add: go_def bar_scene_group_def Let_def)
  next
    case 4 show ?thesis unfolding 4 by (simp add: go_def bar_scene_group_def Let_def)
  next
    case 5 show ?thesis unfolding 5 by (simp add: go_def bar_scene_group_def Let_def)
  qed
qed

subsection \<open>What each function logs\<close>

lemma trace_prims [simp]:
  "trace (log c s) = trace s @ [c]"
  "trace (showFineNote s) = trace s @ [ShowFineNote]"
  "trace (hideFineNote s) = trace s @ [HideFineNote]"
  "trace (crossfadeOut g s) = trace s @ [CrossfadeOut]"
  "trace (crossfadeIn s) = trace s @ [CrossfadeIn]"
  "trace (clear_layers s) = trace s"
  "trace (drawScatter p s) = trace s @ [DrawScatter, ShowFineNote]"
  "trace (addQuadrantsIfNeeded s) = trace s @ [AddQuadrantsIfNeeded]"
  "trace (apply_dim f s) = trace s"
  "trace (focusHorror on s) = trace s @ [FocusHorror on]"
  "trace (focusQuadrant p q s) = trace s @ [FocusQuadrant q]"
  "trace (zoomToHorror p s) = trace s @ [ZoomToHorror]"
  "trace (restoreFromHorrorZoom p s) = trace s @ [RestoreFromHorrorZoom]"
  "trace (drawFearBars_rest rows s) = trace s"
  "trace (drawFearBarsGrouped_rest rows s) = trace s"
  "trace (drawFearBars s) = trace s @ [DrawFearBars, HideFineNote]"
  "trace (drawFearBarsGrouped s) = trace s @ [DrawFearBarsGrouped, HideFineNote]"
  "trace (focusBars n s) = trace s @ [FocusBars n]"
  "trace (focusBarsBySupergroup g s) = trace s @ [FocusBarsBySupergroup g]"
  "trace (showMethodologyBtn s) = trace s @ [ShowMethodologyBtn]"
  "trace (hideMethodologyBtn s) = trace s @ [HideMethodologyBtn]"
  by (simp_all add: chart_defs Let_def split: option.splits)


lemma go_restoring_trace:
  assumes "scene \<in> set restoring_scenes"
  shows "\<exists>rest. trace (go p scene s) = trace s @ [HideMethodologyBtn, RestoreFromHorrorZoom] @ rest"
proof -
  from assms consider "scene = ''baseline''" | "scene = ''quadrants''" | "scene = ''high-views''"
    | "scene = ''critical-darlings''" | "scene = ''horror''"
    unfolding restoring_scenes_def by fastforce
  then show ?thesis
  proof cases
    case 1 show ?thesis unfolding 1 go_baseline by (simp add: Let_def)
  next
    case 2 show ?thesis unfolding 2 go_quadrants by (simp add: Let_def)
  next
    case 3 show ?thesis unfolding 3 go_high_views by (simp add: Let_def)
  next
    case 4 show ?thesis unfolding 4 go_critical_darlings by (simp add: Let_def)
  next
    case 5 show ?thesis unfolding 5 go_horror by (simp add: Let_def)
  qed
qed

lemma flags_prims [simp]:
  "quadrantsAdded (log c s) = quadrantsAdded s" "isHorrorFocused (log c s) = isHorrorFocused s"
  "quadrantsAdded (hideFineNote s) = quadrantsAdded s" "isHorrorFocused (hideFineNote s) = isHorrorFocused s"
  "quadrantsAdded (showFineNote s) = quadrantsAdded s" "isHorrorFocused (showFineNote s) = isHorrorFocused s"
  "quadrantsAdded (crossfadeOut g s) = quadrantsAdded s" "isHorrorFocused (crossfadeOut g s) = isHorrorFocused s"
  "quadrantsAdded (crossfadeIn s) = quadrantsAdded s" "isHorrorFocused (crossfadeIn s) = isHorrorFocused s"
  "quadrantsAdded (clear_layers s) = quadrantsAdded s" "isHorrorFocused (clear_layers s) = isHorrorFocused s"
  "quadrantsAdded (drawFearBars_rest rows s) = quadrantsAdded s"
  "isHorrorFocused (drawFearBars_rest rows s) = isHorrorFocused s"
  "quadrantsAdded (drawFearBarsGrouped_rest rows s) = quadrantsAdded s"
  "isHorrorFocused (drawFearBarsGrouped_rest rows s) = isHorrorFocused s"
  "quadrantsAdded (drawFearBars s) = quadrantsAdded s" "isHorrorFocused (drawFearBars s) = isHorrorFocused s"
  "quadrantsAdded (drawFearBarsGrouped s) = quadrantsAdded s"
  "isHorrorFocused (drawFearBarsGrouped s) = isHorrorFocused s"
  "quadrantsAdded (focusBars n s) = quadrantsAdded s" "isHorrorFocused (focusBars n s) = isHorrorFocused s"
  "quadrantsAdded (focusBarsBySupergroup gn s) = quadrantsAdded s"
  "isHorrorFocused (focusBarsBySupergroup gn s) = isHorrorFocused s"
  "quadrantsAdded (showMethodologyBtn s) = quadrantsAdded s"
  "isHorrorFocused (showMethodologyBtn s) = isHorrorFocused s"
  "quadrantsAdded (hideMethodologyBtn s) = quadrantsAdded s"
  "isHorrorFocused (hideMethodologyBtn s) = isHorrorFocused s"
  by (simp_all add: chart_defs Let_def split: option.splits)

lemma mode_prims [simp]:
  "mode (log c s) = mode s"
  "mode (hideFineNote s) = mode s"
  "mode (showFineNote s) = mode s"
  "mode (crossfadeOut g s) = mode s"
  "mode (crossfadeIn s) = mode s"
  "mode (clear_layers s) = mode s"
  "mode (drawScatter p s) = Scatter"
  "mode (addQuadrantsIfNeeded s) = mode s"
  "mode (apply_dim f s) = mode s"
  "mode (focusHorror on s) = mode s"
  "mode (focusQuadrant p q s) = mode s"
  "mode (zoomToHorror p s) = mode s"
  "mode (restoreFromHorrorZoom p s) = mode s"
  "mode (drawFearBars_rest rows s) = Bars"
  "mode (drawFearBarsGrouped_rest rows s) = Bars"
  "mode (drawFearBars s) = (if fearRows s = None then mode s else Bars)"
  "mode (drawFearBarsGrouped s) = (if fearRows s = None then mode s else Bars)"
  "mode (focusBars n s) = mode s"
  "mode (focusBarsBySupergroup gn s) = mode s"
  "mode (showMethodologyBtn s) = mode s"
  "mode (hideMethodologyBtn s) = mode s"
  by (simp_all add: chart_defs Let_def split: option.splits)

lemma pending_prims [simp]:
  "pending (log c s) = pending s"
  "pending (hideFineNote s) = pending s"
  "pending (showFineNote s) = pending s"
  "pending (crossfadeOut g s) = pending s @ [FadeEnd g]"
  "pending (crossfadeIn s) = pending s"
  "pending (clear_layers s) = pending s"
  "pending (drawScatter p s) = pending s"
  "pending (addQuadrantsIfNeeded s) = pending s"
  "pending (apply_dim f s) = pending s"
  "pending (focusHorror on s) = pending s"
  "pending (focusQuadrant p q s) = pending s"
  "pending (zoomToHorror p s) = pending s"
  "pending (restoreFromHorrorZoom p s) = pending s"
  "pending (drawFearBars_rest rows s) = pending s"
  "pending (drawFearBarsGrouped_rest rows s) = pending s"
  "pending (drawFearBars s) = pending s @ (if fearRows s = None then [CsvLoaded Flat] else [])"
  "pending (drawFearBarsGrouped s) = pending s @ (if fearRows s = None then [CsvLoaded Grouped] else [])"
  "pending (focusBars n s) = pending s"
  "pending (focusBarsBySupergroup gn s) = pending s"
  "pending (showMethodologyBtn s) = pending s"
  "pending (hideMethodologyBtn s) = pending s"
  by (simp_all add: chart_defs Let_def split: option.splits)

lemma fearRows_prims [simp]:
  "fearRows (log c s) = fearRows s"
  "fearRows (hideFineNote s) = fearRows s"
  "fearRows (showFineNote s) = fearRows s"
  "fearRows (crossfadeOut g s) = fearRows s"
  "fearRows (crossfadeIn s) = fearRows s"
  "fearRows (clear_layers s) = fearRows s"
  "fearRows (drawScatter p s) = fearRows s"
  "fearRows (addQuadrantsIfNeeded s) = fearRows s"
  "fearRows (apply_dim f s) = fearRows s"
  "fearRows (focusHorror on s) = fearRows s"
  "fearRows (focusQuadrant p q s) = fearRows s"
  "fearRows (zoomToHorror p s) = fearRows s"
  "fearRows (restoreFromHorrorZoom p s) = fearRows s"
  "fearRows (drawFearBars_rest rows s) = fearRows s"
  "fearRows (drawFearBarsGrouped_rest rows s) = fearRows s"
  "fearRows (drawFearBars s) = fearRows s"
  "fearRows (drawFearBarsGrouped s) = fearRows s"
  "fearRows (focusBars n s) = fearRows s"
  "fearRows (focusBarsBySupergroup gn s) = fearRows s"
  "fearRows (showMethodologyBtn s) = fearRows s"
  "fearRows (hideMethodologyBtn s) = fearRows s"
  by (simp_all add: chart_defs Let_def split: option.splits)

subsection \<open>The deferred pieces\<close>

lemma settle_Nil: "pending s = [] \<Longrightarrow> settle p s = s"
  by (subst settle.simps) simp

lemma settle_Cons:
  "pending s = t # ts \<Longrightarrow> settle p s = settle p (run_task p t (s\<lparr>pending := ts\<rparr>))"
  by (subst settle.simps) simp

lemma settle_invariant:
  assumes "P s"
    and "\<And>q t s'. P s' \<Longrightarrow> P (run_task q t s')"
    and "\<And>s' ts. P s' \<Longrightarrow> P (s'\<lparr>pending := ts\<rparr>)"
  shows "P (settle p s)"
  using assms(1)
proof (induction p s rule: settle.induct)
  case (1 p s)
  show ?case
  proof (cases "pending s")
    case Nil
    from settle_Nil[OF Nil] "1.prems" show ?thesis by (simp only:)
  next
    case (Cons t ts)
    have "P (s\<lparr>pending := ts\<rparr>)" by (rule assms(3)[OF "1.prems"])
    then have "P (run_task p t (s\<lparr>pending := ts\<rparr>))" by (rule assms(2))
    then have "P (settle p (run_task p t (s\<lparr>pending := ts\<rparr>)))" by (rule "1.IH"[OF Cons])
    with settle_Cons[OF Cons] show ?thesis by (simp only:)
  qed
qed

lemma flags_scatter_prims [simp]:
  "quadrantsAdded (drawScatter p s) = False" "isHorrorFocused (drawScatter p s) = isHorrorFocused s"
  "quadrantsAdded (addQuadrantsIfNeeded s) = True"
  "isHorrorFocused (addQuadrantsIfNeeded s) = isHorrorFocused s"
  "quadrantsAdded (apply_dim f s) = quadrantsAdded s" "isHorrorFocused (apply_dim f s) = isHorrorFocused s"
  "quadrantsAdded (focusHorror on s) = quadrantsAdded s" "isHorrorFocused (focusHorror on s) = on"
  "quadrantsAdded (focusQuadrant p q s) = quadrantsAdded s"
  "isHorrorFocused (focusQuadrant p q s) = isHorrorFocused s"
  "quadrantsAdded (zoomToHorror p s) = quadrantsAdded s"
  "isHorrorFocused (zoomToHorror p s) = isHorrorFocused s"
  "quadrantsAdded (restoreFromHorrorZoom p s) = quadrantsAdded s"
  "isHorrorFocused (restoreFromHorrorZoom p s) = isHorrorFocused s"
  by (simp_all add: chart_defs Let_def split: option.splits)

lemma run_task_flags [simp]:
  "quadrantsAdded (run_task p t s) = quadrantsAdded s"
  "isHorrorFocused (run_task p t s) = isHorrorFocused s"
proof -
  show "quadrantsAdded (run_task p t s) = quadrantsAdded s"
  proof (cases t)
    case (FadeEnd g) then show ?thesis by (cases g) (simp_all add: Let_def)
  next
    case (CsvLoaded k) then show ?thesis by (cases k) simp_all
  next
    case (FocusTimer name) then show ?thesis by simp
  qed
  show "isHorrorFocused (run_task p t s) = isHorrorFocused s"
  proof (cases t)
    case (FadeEnd g) then show ?thesis by (cases g) (simp_all add: Let_def)
  next
    case (CsvLoaded k) then show ?thesis by (cases k) simp_all
  next
    case (FocusTimer name) then show ?thesis by simp
  qed
qed

lemma run_task_trace:
  "\<exists>cs. trace (run_task p t s) = trace s @ cs \<and> RestoreFromHorrorZoom \<notin> set cs"
proof (cases t)
  case (FadeEnd g) then show ?thesis by (cases g) (simp_all add: Let_def)
next
  case (CsvLoaded k) then show ?thesis by (cases k) simp_all
next
  case (FocusTimer name) then show ?thesis by simp
qed

lemma run_task_mode_fade:
  "mode (run_task p (FadeEnd g) s) = (if fearRows s = None then mode s else Bars)"
  by (cases g) (simp_all add: Let_def)

lemma run_task_mode_csv: "mode (run_task p (CsvLoaded k) s) = Bars"
  by (cases k) simp_all

lemma run_task_mode_timer: "mode (run_task p (FocusTimer name) s) = mode s"
  by simp

lemma run_task_pending_fade:
  "pending (run_task p (FadeEnd g) s) =
     pending s @ (if fearRows s = None then [CsvLoaded Flat] else [])
       @ (case g of None \<Rightarrow> [] | Some name \<Rightarrow> [FocusTimer name])"
  by (cases g) (simp_all add: Let_def)

lemma run_task_pending_csv: "pending (run_task p (CsvLoaded k) s) = pending s"
  by (cases k) simp_all

lemma run_task_pending_timer: "pending (run_task p (FocusTimer name) s) = pending s"
  by simp

lemmas run_task_mode = run_task_mode_fade run_task_mode_csv run_task_mode_timer
lemmas run_task_pending = run_task_pending_fade run_task_pending_csv run_task_pending_timer

declare run_task.simps [simp del]

lemma settle_flags [simp]:
  "quadrantsAdded (settle p s) = quadrantsAdded s"
  "isHorrorFocused (settle p s) = isHorrorFocused s"
  by (rule settle_invariant; simp)+

lemma settle_trace:
  "\<exists>cs. trace (settle p s) = trace s @ cs \<and> RestoreFromHorrorZoom \<notin> set cs"
proof (rule settle_invariant)
  show "\<exists>cs. trace s = trace s @ cs \<and> RestoreFromHorrorZoom \<notin> set cs" by simp
next
  fix q t and s' :: chart
  assume "\<exists>cs. trace s' = trace s @ cs \<and> RestoreFromHorrorZoom \<notin> set cs"
  then obtain cs where cs: "trace s' = trace s @ cs" "RestoreFromHorrorZoom \<notin> set cs" by blast
  from run_task_trace[of q t s'] obtain ds where
    ds: "trace (run_task q t s') = trace s' @ ds" "RestoreFromHorrorZoom \<notin> set ds" by blast
  from cs ds have "trace (run_task q t s') = trace s @ (cs @ ds) \<and> RestoreFromHorrorZoom \<notin> set (cs @ ds)"
    by simp
  then show "\<exists>cs. trace (run_task q t s') = trace s @ cs \<and> RestoreFromHorrorZoom \<notin> set cs" by blast
next
  fix ts and s' :: chart
  assume "\<exists>cs. trace s' = trace s @ cs \<and> RestoreFromHorrorZoom \<notin> set cs"
  then show "\<exists>cs. trace (s'\<lparr>pending := ts\<rparr>) = trace s @ cs \<and> RestoreFromHorrorZoom \<notin> set cs"
    by simp
qed

lemma settle_pending [simp]: "pending (settle p s) = []"
proof (induction p s rule: settle.induct)
  case (1 p s)
  show ?case
  proof (cases "pending s")
    case Nil then show ?thesis by (simp add: settle_Nil)
  next
    case (Cons t ts)
    from "1.IH"[OF Cons] settle_Cons[OF Cons] show ?thesis by (simp only:)
  qed
qed

lemma bars_due_step:
  assumes "bars_due s" "pending s = t # ts"
  shows "bars_due (run_task p t (s\<lparr>pending := ts\<rparr>))"
proof (cases t)
  case (FadeEnd g)
  then show ?thesis by (simp add: bars_due_def run_task_mode run_task_pending bar_task_def)
next
  case (CsvLoaded k)
  then show ?thesis by (simp add: bars_due_def run_task_mode)
next
  case (FocusTimer name)
  with assms show ?thesis by (simp add: bars_due_def run_task_mode run_task_pending bar_task_def)
qed

lemma settle_bars: "bars_due s \<Longrightarrow> mode (settle p s) = Bars"
proof (induction p s rule: settle.induct)
  case (1 p s)
  show ?case
  proof (cases "pending s")
    case Nil
    with "1.prems" show ?thesis by (simp add: settle_Nil bars_due_def)
  next
    case (Cons t ts)
    from "1.IH"[OF Cons bars_due_step[OF "1.prems" Cons]] settle_Cons[OF Cons]
    show ?thesis by (simp only:)
  qed
qed

lemma go_bar_scene_due:
  assumes "scene \<in> set bar_scenes"
  shows "bars_due (go p scene s)"
  unfolding go_bar_scene[OF assms]
  by (simp add: Let_def bars_due_def bar_task_def split: option.splits)

lemma go_bar_scene_flags:
  assumes "scene \<in> set bar_scenes"
  shows "quadrantsAdded (go p scene s) = quadrantsAdded s"
        "isHorrorFocused (go p scene s) = isHorrorFocused s"
  unfolding go_bar_scene[OF assms]
  by (simp_all add: Let_def split: option.splits)

lemma go_bar_scene_trace:
  assumes "scene \<in> set bar_scenes"
  shows "\<exists>cs. trace (go p scene s) = trace s @ cs \<and> RestoreFromHorrorZoom \<notin> set cs"
  unfolding go_bar_scene[OF assms]
  by (simp add: Let_def split: option.splits)

lemma go_horror_zoom_trace:
  "\<exists>cs. trace (go p ''horror-zoom'' s) = trace s @ cs \<and> RestoreFromHorrorZoom \<notin> set cs"
  unfolding go_horror_zoom by (simp add: Let_def)

lemma recognized_split:
  "recognized_scenes = restoring_scenes @ ''horror-zoom'' # bar_scenes"
  by (simp add: restoring_scenes_def bar_scenes_def recognized_scenes_def)

lemma split_cases: "x \<in> A \<or> x = h \<or> x \<in> B \<or> x \<notin> A \<union> insert h B"
  by blast

lemma scene_cases:
  "scene \<in> set restoring_scenes \<or> scene = ''horror-zoom'' \<or> scene \<in> set bar_scenes
     \<or> scene \<notin> set recognized_scenes"
  unfolding recognized_split set_append list.set(2) by (rule split_cases)


lemma go_unrecognized: "scene \<notin> set recognized_scenes \<Longrightarrow> go p scene s = s"
  by (simp add: go_def recognized_scenes_def)

lemma go_no_restore:
  assumes "scene \<notin> set restoring_scenes"
  shows "\<exists>cs. trace (go p scene s) = trace s @ cs \<and> RestoreFromHorrorZoom \<notin> set cs"
proof -
  from assms scene_cases[of scene]
  consider "scene = ''horror-zoom''" | "scene \<in> set bar_scenes" | "scene \<notin> set recognized_scenes"
    by blast
  then show ?thesis
  proof cases
    case 1 then show ?thesis using go_horror_zoom_trace by simp
  next
    case 2 then show ?thesis by (rule go_bar_scene_trace)
  next
    case 3 then show ?thesis by (simp add: go_unrecognized)
  qed
qed

lemma drop_trace: "trace s' = trace s @ cs \<Longrightarrow> calls_since s s' = cs"
  by (simp add: calls_since_def)

lemma issue_bar_scene:
  assumes "scene \<in> set bar_scenes"
  shows "mode (issue p scene s) = Bars"
    and "quadrantsAdded (issue p scene s) = quadrantsAdded s"
    and "isHorrorFocused (issue p scene s) = isHorrorFocused s"
  using settle_bars[OF go_bar_scene_due[OF assms]] go_bar_scene_flags[OF assms]
  by (simp_all add: issue_def)

lemma axis_prims [simp]:
  "axis_opacity (log c s) = axis_opacity s"
  "axis_opacity (hideFineNote s) = axis_opacity s"
  "axis_opacity (crossfadeIn s) = Some 1"
  "axis_opacity (crossfadeOut g s) = Some 0"
  "axis_opacity (drawFearBars_rest rows s) = axis_opacity s"
  "axis_opacity (drawFearBarsGrouped_rest rows s) = axis_opacity s"
  "axis_opacity (drawFearBars s) = axis_opacity s"
  "axis_opacity (focusBarsBySupergroup gn s) = axis_opacity s"
  by (simp_all add: chart_defs Let_def split: option.splits)



lemma run_task_trace_fade:
  "trace (run_task p (FadeEnd g) s) = trace s @ [DrawFearBars, HideFineNote, CrossfadeIn]"
  by (cases g) (simp_all add: run_task.simps Let_def)

lemma run_task_trace_csv: "trace (run_task p (CsvLoaded k) s) = trace s"
  by (cases k) (simp_all add: run_task.simps)

lemma run_task_fearRows_fade: "fearRows (run_task p (FadeEnd g) s) = fearRows s"
  by (cases g) (simp_all add: run_task.simps Let_def)



lemma trace_issue_bars_cold:
  "trace (issue p ''bars'' cold)
     = [ShowMethodologyBtn, CrossfadeOut, DrawFearBars, HideFineNote, CrossfadeIn]"
proof -
  let ?s1 = "crossfadeOut None (showMethodologyBtn cold)"
  let ?s2 = "run_task p (FadeEnd None) (?s1\<lparr>pending := []\<rparr>)"
  let ?s3 = "run_task p (CsvLoaded Flat) (?s2\<lparr>pending := []\<rparr>)"
  have c: "pending cold = []" "mode cold = ModeNone" "fearRows cold = None" "trace cold = []"
    by (simp_all add: cold_def)
  have g: "go p ''bars'' cold = ?s1" unfolding go_bars using c by (simp add: Let_def)
  have p1: "pending ?s1 = [FadeEnd None]" using c by simp
  have p2: "pending ?s2 = [CsvLoaded Flat]" using c by (simp add: run_task_pending)
  have p3: "pending ?s3 = []" by (simp add: run_task_pending)
  have "issue p ''bars'' cold = ?s3"
    unfolding issue_def g settle_Cons[OF p1] settle_Cons[OF p2] by (rule settle_Nil[OF p3])
  then show ?thesis using c by (simp add: run_task_trace_fade run_task_trace_csv)
qed

lemma go_baseline_pending [simp]: "pending (go p ''baseline'' s) = pending s"
  unfolding go_baseline by (simp add: Let_def)

lemma go_horror_pending [simp]: "pending (go p ''horror'' s) = pending s"
  unfolding go_horror by (simp add: Let_def)

lemma go_horror_mode [simp]: "mode (go p ''horror'' s) = Scatter"
  unfolding go_horror by (simp add: Let_def)

lemma go_horror_flags [simp]:
  "quadrantsAdded (go p ''horror'' s)" "isHorrorFocused (go p ''horror'' s)"
  unfolding go_horror by (simp_all add: Let_def)

lemma list_ex_dim_bubble [simp]: "list_ex dimmed (map (dim_bubble f) bs) = list_ex (\<lambda>b. f (datum b)) bs"
  by (induction bs) (simp_all add: dim_bubble_def)

lemma list_ex_dim_label [simp]: "list_ex l_dimmed (map (dim_label f) ls) = list_ex (\<lambda>l. f (l_datum l)) ls"
  by (induction ls) (simp_all add: dim_label_def)

lemma list_ex_False [simp]: "list_ex (\<lambda>x. False) xs = False"
  by (induction xs) simp_all

lemma shouldDim_none [simp]: "shouldDim p ''none'' d = False"
  by (simp add: shouldDim_def Let_def)


section \<open>The router: properties\<close>

text \<open>
  C9. A scene identifier for which the router has no branch changes nothing: the state
  after \<^verbatim>\<open>go\<close> is the state before it, with mode, flags, marks, titles and the
  methodology button as they were, no call made and nothing deferred. The model of \<^verbatim>\<open>go\<close>
  has no error result, as the empty \<^verbatim>\<open>else\<close> branch has none.
\<close>

theorem unrecognized_scene_is_noop:
  assumes "scene \<notin> set recognized_scenes"
  shows "go p scene s = s"
  using assms by (simp add: go_def recognized_scenes_def)

text \<open>\<^verbatim>\<open>bars_grouped\<close>, which the comment above the router lists, has no branch.\<close>

theorem unrecognized_scene_witness:
  "''bars_grouped'' \<notin> set recognized_scenes \<and> go demo_page ''bars_grouped'' cold = cold"
proof -
  have h: "''bars_grouped'' \<notin> set recognized_scenes" by (simp add: recognized_scenes_def)
  from unrecognized_scene_is_noop[OF h, of demo_page cold] h show ?thesis by simp
qed

text \<open>
  C1, as the code has it. For \<^verbatim>\<open>baseline\<close>, \<^verbatim>\<open>quadrants\<close>, \<^verbatim>\<open>high-views\<close>,
  \<^verbatim>\<open>critical-darlings\<close> and \<^verbatim>\<open>horror\<close> the router first hides the methodology button
  and then calls \<^verbatim>\<open>restoreFromHorrorZoom\<close>, before anything else. For every other
  identifier, so for \<^verbatim>\<open>horror-zoom\<close> and for the five bar scenes, \<^verbatim>\<open>restoreFromHorrorZoom\<close>
  is not called at all, neither by the router nor by what it defers.
\<close>

theorem restore_call_by_scene:
  "(scene \<in> set restoring_scenes \<longrightarrow>
      take 2 (calls_since s (go p scene s)) = [HideMethodologyBtn, RestoreFromHorrorZoom])
   \<and> (scene \<notin> set restoring_scenes \<longrightarrow>
      RestoreFromHorrorZoom \<notin> set (calls_since s (issue p scene s)))"
proof (intro conjI impI)
  assume "scene \<in> set restoring_scenes"
  from go_restoring_trace[OF this, of p s] obtain rest where
    "trace (go p scene s) = trace s @ [HideMethodologyBtn, RestoreFromHorrorZoom] @ rest" by blast
  from drop_trace[OF this]
  show "take 2 (calls_since s (go p scene s)) = [HideMethodologyBtn, RestoreFromHorrorZoom]" by simp
next
  assume "scene \<notin> set restoring_scenes"
  from go_no_restore[OF this, of p s] obtain cs where
    cs: "trace (go p scene s) = trace s @ cs" "RestoreFromHorrorZoom \<notin> set cs" by blast
  from settle_trace[of p "go p scene s"] obtain ds where
    ds: "trace (settle p (go p scene s)) = trace (go p scene s) @ ds" "RestoreFromHorrorZoom \<notin> set ds"
    by blast
  from cs ds have "trace (issue p scene s) = trace s @ (cs @ ds)" by (simp add: issue_def)
  from drop_trace[OF this] cs ds
  show "RestoreFromHorrorZoom \<notin> set (calls_since s (issue p scene s))" by simp
qed

text \<open>The two cases on the cold page, for \<^verbatim>\<open>horror\<close> and for \<^verbatim>\<open>horror-zoom\<close>.\<close>

theorem restore_call_by_scene_witness:
  "''horror'' \<in> set restoring_scenes
   \<and> take 2 (calls_since cold (go demo_page ''horror'' cold))
        = [HideMethodologyBtn, RestoreFromHorrorZoom]
   \<and> ''horror-zoom'' \<notin> set restoring_scenes
   \<and> RestoreFromHorrorZoom \<notin> set (calls_since cold (issue demo_page ''horror-zoom'' cold))"
proof -
  have a: "''horror'' \<in> set restoring_scenes" and b: "''horror-zoom'' \<notin> set restoring_scenes"
    by (simp_all add: restoring_scenes_def)
  from restore_call_by_scene[where scene="''horror''" and s=cold and p=demo_page]
       restore_call_by_scene[where scene="''horror-zoom''" and s=cold and p=demo_page] a b
  show ?thesis by blast
qed

text \<open>
  All the calls of the scene \<^verbatim>\<open>bars\<close> on the cold page, the crossfade and the file
  included: \<^verbatim>\<open>restoreFromHorrorZoom\<close> is not among them.
\<close>

theorem bars_skip_restore_counterexample:
  "calls_since cold (issue demo_page ''bars'' cold)
     = [ShowMethodologyBtn, CrossfadeOut, DrawFearBars, HideFineNote, CrossfadeIn]"
  using trace_issue_bars_cold[of demo_page] by (simp add: calls_since_def cold_def)

text \<open>
  C3, as the code has it. When a bar scene has been issued and the page has come to
  rest, the mode is \<^verbatim>\<open>bars\<close> and the two overlay flags \<^verbatim>\<open>quadrantsAdded\<close> and
  \<^verbatim>\<open>isHorrorFocused\<close> are what they were before: the bar scenes do not write them.
\<close>

theorem bar_scene_keeps_flags:
  assumes "scene \<in> set bar_scenes"
  shows "mode (issue p scene s) = Bars
       \<and> quadrantsAdded (issue p scene s) = quadrantsAdded s
       \<and> isHorrorFocused (issue p scene s) = isHorrorFocused s"
  using issue_bar_scene[OF assms] by simp

lemma flags_before_bars:
  "quadrantsAdded (issue p ''horror'' s)" "isHorrorFocused (issue p ''horror'' s)"
  by (simp_all add: issue_def)

text \<open>A bar scene after \<^verbatim>\<open>horror\<close> on the example page.\<close>

theorem bar_scene_keeps_flags_witness:
  "''bars_body'' \<in> set bar_scenes
   \<and> mode (issue demo_page ''bars_body'' (issue demo_page ''horror'' cold)) = Bars
   \<and> quadrantsAdded (issue demo_page ''bars_body'' (issue demo_page ''horror'' cold))
       = quadrantsAdded (issue demo_page ''horror'' cold)
   \<and> isHorrorFocused (issue demo_page ''bars_body'' (issue demo_page ''horror'' cold))
       = isHorrorFocused (issue demo_page ''horror'' cold)"
proof -
  have h: "''bars_body'' \<in> set bar_scenes" by (simp add: bar_scenes_def)
  from bar_scene_keeps_flags[OF h, of demo_page "issue demo_page ''horror'' cold"] h
  show ?thesis by simp
qed

text \<open>
  After \<^verbatim>\<open>baseline\<close>, \<^verbatim>\<open>horror\<close>, \<^verbatim>\<open>bars\<close> from the cold page the mode is \<^verbatim>\<open>bars\<close> and
  both flags are still set.
\<close>

theorem flags_survive_bars_counterexample:
  "mode (run_scenes demo_page [''baseline'', ''horror'', ''bars''] cold) = Bars
   \<and> quadrantsAdded (run_scenes demo_page [''baseline'', ''horror'', ''bars''] cold)
   \<and> isHorrorFocused (run_scenes demo_page [''baseline'', ''horror'', ''bars''] cold)"
proof -
  have h: "''bars'' \<in> set bar_scenes" by (simp add: bar_scenes_def)
  show ?thesis
    using issue_bar_scene[OF h, of demo_page "issue demo_page ''horror'' (issue demo_page ''baseline'' cold)"]
      flags_before_bars[of demo_page "issue demo_page ''baseline'' cold"]
    by (simp add: run_scenes_def)
qed





section \<open>The shared cache of the bar renderers\<close>

lemma fetched_prims [simp]:
  "fetched (log c s) = fetched s"
  "fetched (hideFineNote s) = fetched s"
  "fetched (drawFearBars_rest rows s) = fetched s"
  "fetched (drawFearBarsGrouped_rest rows s) = fetched s"
  by (simp_all add: chart_defs Let_def)

lemma bars_rest [simp]:
  "bars (drawFearBars_rest rows s) = map new_fear_bar (fear_counts rows)"
  "bars (drawFearBarsGrouped_rest rows s) = map new_group_bar (grouped_counts rows)"
  by (simp_all add: chart_defs Let_def)


lemma render_first:
  assumes "fearRows s = None" "pending s = []" "fetched s = []"
  shows "cached p k k (render p k s)"
proof (cases k)
  case Flat
  let ?s1 = "drawFearBars s"
  have p1: "pending ?s1 = [CsvLoaded Flat]" using assms by simp
  have "render p k s = settle p (run_task p (CsvLoaded Flat) (?s1\<lparr>pending := []\<rparr>))"
    unfolding render_def Flat by (simp add: settle_Cons[OF p1])
  also have "\<dots> = run_task p (CsvLoaded Flat) (?s1\<lparr>pending := []\<rparr>)"
    by (rule settle_Nil) (simp add: run_task_pending)
  finally show ?thesis using assms Flat
    by (simp add: cached_def run_task.simps drawFearBars_def Let_def
          file_rows_def renderer_file_def bars_of_def)
next
  case Grouped
  let ?s1 = "drawFearBarsGrouped s"
  have p1: "pending ?s1 = [CsvLoaded Grouped]" using assms by simp
  have "render p k s = settle p (run_task p (CsvLoaded Grouped) (?s1\<lparr>pending := []\<rparr>))"
    unfolding render_def Grouped by (simp add: settle_Cons[OF p1])
  also have "\<dots> = run_task p (CsvLoaded Grouped) (?s1\<lparr>pending := []\<rparr>)"
    by (rule settle_Nil) (simp add: run_task_pending)
  finally show ?thesis using assms Grouped
    by (simp add: cached_def run_task.simps drawFearBarsGrouped_def Let_def
          file_rows_def renderer_file_def bars_of_def)
qed

lemma render_next:
  assumes "cached p k0 k s"
  shows "cached p k0 k' (render p k' s)"
proof -
  from assms have f: "fearRows s = Some (file_rows p k0)" and pe: "pending s = []"
    and fe: "fetched s = [renderer_file k0]" by (simp_all add: cached_def)
  show ?thesis
  proof (cases k')
    case Flat
    have "render p k' s = drawFearBars s"
      unfolding render_def Flat using f pe by (simp add: settle_Nil)
    then show ?thesis using f pe fe Flat
      by (simp add: cached_def drawFearBars_def Let_def bars_of_def)
  next
    case Grouped
    have "render p k' s = drawFearBarsGrouped s"
      unfolding render_def Grouped using f pe by (simp add: settle_Nil)
    then show ?thesis using f pe fe Grouped
      by (simp add: cached_def drawFearBarsGrouped_def Let_def bars_of_def)
  qed
qed

lemma render_all_cached:
  "cached p k0 k s \<Longrightarrow> cached p k0 (last (k # ks)) (render_all p ks s)"
proof (induction ks arbitrary: k s)
  case Nil then show ?case by (simp add: render_all_def)
next
  case (Cons k' ks)
  from Cons.IH[OF render_next[OF Cons.prems, of k']] show ?case by (simp add: render_all_def)
qed

text \<open>
  C10. Both bar renderers read and fill the one variable \<^verbatim>\<open>fearRows\<close>. When bar
  renderers are called one after the other on a page that has no rows yet, each call
  awaited, exactly one file is requested, the file of the renderer that is called first;
  \<^verbatim>\<open>fearRows\<close> holds the rows of that file from then on, and the bars that the last
  renderer draws are computed from these rows, whichever renderer it is.
\<close>

theorem shared_fear_cache:
  assumes "fearRows s = None" "pending s = []" "fetched s = []"
  shows "fetched (render_all p (k # ks) s) = [renderer_file k]
       \<and> fearRows (render_all p (k # ks) s) = Some (file_rows p k)
       \<and> bars (render_all p (k # ks) s) = bars_of (last (k # ks)) (file_rows p k)"
proof -
  have "render_all p (k # ks) s = render_all p ks (render p k s)" by (simp add: render_all_def)
  with render_all_cached[OF render_first[OF assms, of p k], of ks] show ?thesis
    by (simp add: cached_def)
qed

text \<open>
  The grouped renderer first and the ungrouped one after it: only the base file is
  requested, and the ungrouped bars are counted from its rows.
\<close>

theorem shared_fear_cache_witness:
  "fearRows cold = None \<and> pending cold = [] \<and> fetched cold = []
   \<and> fetched (render_all demo_page [Grouped, Flat] cold) = [''./horror_categorized_clean.csv'']
   \<and> fearRows (render_all demo_page [Grouped, Flat] cold) = Some (csv_clean demo_page)
   \<and> bars (render_all demo_page [Grouped, Flat] cold)
       = map new_fear_bar (fear_counts (csv_clean demo_page))"
proof -
  have h: "fearRows cold = None" "pending cold = []" "fetched cold = []" by (simp_all add: cold_def)
  from shared_fear_cache[OF h, of demo_page Grouped "[Flat]"] h show ?thesis
    by (simp add: renderer_file_def file_rows_def bars_of_def)
qed

text \<open>
  The router itself only ever reaches the ungrouped renderer: neither a branch of \<^verbatim>\<open>go\<close>
  nor a deferred piece requests another file than that of \<^verbatim>\<open>drawFearBars\<close>, in whatever
  order they run.
\<close>

lemma fetched_more [simp]:
  "fetched (showFineNote s) = fetched s"
  "fetched (crossfadeOut g s) = fetched s"
  "fetched (crossfadeIn s) = fetched s"
  "fetched (clear_layers s) = fetched s"
  "fetched (drawScatter p s) = fetched s"
  "fetched (addQuadrantsIfNeeded s) = fetched s"
  "fetched (apply_dim f s) = fetched s"
  "fetched (focusHorror on s) = fetched s"
  "fetched (focusQuadrant p q s) = fetched s"
  "fetched (zoomToHorror p s) = fetched s"
  "fetched (restoreFromHorrorZoom p s) = fetched s"
  "fetched (focusBars n s) = fetched s"
  "fetched (focusBarsBySupergroup gn s) = fetched s"
  "fetched (showMethodologyBtn s) = fetched s"
  "fetched (hideMethodologyBtn s) = fetched s"
  "fetched (drawFearBars s) = fetched s @
     (if fearRows s = None then [''./horror_categorized_clean_manualfix.csv''] else [])"
  by (simp_all add: chart_defs Let_def split: option.splits)

lemma go_fetched: "fetched (go p scene s) = fetched s"
proof -
  from scene_cases[of scene]
  consider "scene = ''baseline''" | "scene = ''quadrants''" | "scene = ''high-views''"
    | "scene = ''critical-darlings''" | "scene = ''horror''"
    | "scene = ''horror-zoom''" | "scene \<in> set bar_scenes" | "scene \<notin> set recognized_scenes"
    unfolding restoring_scenes_def list.set insert_iff empty_iff by metis
  then show ?thesis
  proof cases
    case 1 show ?thesis unfolding 1 go_baseline by (simp add: Let_def)
  next
    case 2 show ?thesis unfolding 2 go_quadrants by (simp add: Let_def)
  next
    case 3 show ?thesis unfolding 3 go_high_views by (simp add: Let_def)
  next
    case 4 show ?thesis unfolding 4 go_critical_darlings by (simp add: Let_def)
  next
    case 5 show ?thesis unfolding 5 go_horror by (simp add: Let_def)
  next
    case 6 show ?thesis unfolding 6 go_horror_zoom by (simp add: Let_def)
  next
    case 7 show ?thesis unfolding go_bar_scene[OF 7] by (simp add: Let_def split: option.splits)
  next
    case 8 then show ?thesis by (simp add: go_unrecognized)
  qed
qed

lemma run_task_fetched:
  "set (fetched (run_task p t s))
     \<subseteq> insert ''./horror_categorized_clean_manualfix.csv'' (set (fetched s))"
proof (cases t)
  case (FadeEnd g) then show ?thesis by (cases g) (auto simp: run_task.simps Let_def)
next
  case (CsvLoaded k) then show ?thesis by (cases k) (auto simp: run_task.simps)
next
  case (FocusTimer name) then show ?thesis by (auto simp: run_task.simps)
qed

lemma router_requests_one_file:
  assumes "set (fetched s) \<subseteq> {''./horror_categorized_clean_manualfix.csv''}"
  shows "set (fetched (go p scene s)) \<subseteq> {''./horror_categorized_clean_manualfix.csv''}"
    and "set (fetched (run_task p t s)) \<subseteq> {''./horror_categorized_clean_manualfix.csv''}"
  using assms run_task_fetched[of p t s] by (auto simp: go_fetched)

section \<open>The scroll engine: the active card\<close>

lemma scan_good_step:
  assumes "scan_good H seen acc" "\<forall>(j, c) \<in> set seen. j < i"
  shows "scan_good H (seen @ [(i, el)]) (scan_steps H [(i, el)] acc)"
proof (cases acc)
  case (Pair best bestDist)
  show ?thesis
  proof (cases "rect_bottom el \<le> 0 \<or> card_top el \<ge> H")
    case True
    then have nv: "\<not> in_view H el" by (auto simp: in_view_def)
    from True Pair have "scan_steps H [(i, el)] acc = acc" by simp
    moreover have "scan_good H (seen @ [(i, el)]) acc"
      using assms(1) nv by (auto simp: scan_good_def split: option.splits)
    ultimately show ?thesis by simp
  next
    case False
    then have v: "in_view H el" by (auto simp: in_view_def)
    have d: "\<bar>card_top el + card_height el / 2 - H / 2\<bar> = center_dist H el"
      by (simp add: center_dist_def)
    show ?thesis
    proof (cases best)
      case None
      with assms(1) Pair have bd: "bestDist = None" and nov: "\<forall>(j, c) \<in> set seen. \<not> in_view H c"
        by (auto simp: scan_good_def)
      from False Pair bd have "scan_steps H [(i, el)] acc = (Some (i, el), Some (center_dist H el))"
        by (simp add: Let_def d)
      then show ?thesis using v nov by (auto simp: scan_good_def)
    next
      case (Some ic)
      obtain i0 c0 where ic: "ic = (i0, c0)" by (cases ic)
      from assms(1) Pair Some ic have bd: "bestDist = Some (center_dist H c0)"
        and mem: "(i0, c0) \<in> set seen" and v0: "in_view H c0"
        and mn: "\<forall>(j, c') \<in> set seen. in_view H c' \<longrightarrow>
              center_dist H c0 \<le> center_dist H c'
              \<and> (center_dist H c' = center_dist H c0 \<longrightarrow> i0 \<le> j)"
        by (auto simp: scan_good_def)
      from mem assms(2) have lt: "i0 < i" by auto
      show ?thesis
      proof (cases "center_dist H el < center_dist H c0")
        case True
        with False Pair bd have "scan_steps H [(i, el)] acc = (Some (i, el), Some (center_dist H el))"
          by (simp add: Let_def d)
        moreover have "\<forall>(j, c') \<in> set seen. in_view H c' \<longrightarrow>
              center_dist H el \<le> center_dist H c'
              \<and> (center_dist H c' = center_dist H el \<longrightarrow> i \<le> j)"
          using mn True by fastforce
        ultimately show ?thesis using v by (auto simp: scan_good_def)
      next
        case nl: False
        with False Pair bd Some ic have "scan_steps H [(i, el)] acc = acc"
          by (simp add: Let_def d)
        moreover have "scan_good H (seen @ [(i, el)]) acc"
          using Pair Some ic bd mem v0 mn nl lt by (auto simp: scan_good_def)
        ultimately show ?thesis by simp
      qed
    qed
  qed
qed

lemma scan_steps_Cons: "scan_steps H (x # xs) acc = scan_steps H xs (scan_steps H [x] acc)"
  by (cases x; cases acc) (simp add: Let_def)

lemma scan_good_all:
  assumes "scan_good H seen acc" "sorted_wrt (<) (map fst (seen @ xs))"
  shows "scan_good H (seen @ xs) (scan_steps H xs acc)"
  using assms
proof (induction xs arbitrary: seen acc)
  case Nil
  then show ?case by (cases acc) simp
next
  case (Cons x xs)
  obtain i el where x: "x = (i, el)" by (cases x)
  have before: "\<forall>(j, c) \<in> set seen. j < i"
    using Cons.prems(2) x by (auto simp: sorted_wrt_append)
  have g: "scan_good H (seen @ [x]) (scan_steps H [x] acc)"
    unfolding x by (rule scan_good_step[OF Cons.prems(1) before])
  have "scan_good H ((seen @ [x]) @ xs) (scan_steps H xs (scan_steps H [x] acc))"
    by (rule Cons.IH[OF g]) (use Cons.prems(2) in simp)
  then show ?case by (simp add: scan_steps_Cons[of H x xs])
qed

lemma enumerate_sorted: "sorted_wrt (<) (map fst (zip [0..<length cs] cs))"
  by (simp add: sorted_wrt_iff_nth_less)

lemma in_enumerate: "(j, c) \<in> set (zip [0..<length cs] cs) \<longleftrightarrow> j < length cs \<and> c = cs ! j"
proof
  assume "(j, c) \<in> set (zip [0..<length cs] cs)"
  then show "j < length cs \<and> c = cs ! j" by (auto simp: set_zip)
next
  assume a: "j < length cs \<and> c = cs ! j"
  then have "(j, c) = zip [0..<length cs] cs ! j" by simp
  moreover have "j < length (zip [0..<length cs] cs)" using a by simp
  ultimately show "(j, c) \<in> set (zip [0..<length cs] cs)" by (metis nth_mem)
qed

lemma best_step_None:
  assumes "best_step v = None"
  shows "\<forall>c \<in> set (steps v). \<not> in_view (innerHeight v) c"
proof -
  let ?xs = "zip [0..<length (steps v)] (steps v)"
  have "scan_good (innerHeight v) ([] @ ?xs) (scan_steps (innerHeight v) ?xs (None, None))"
    by (rule scan_good_all) (simp_all add: scan_good_def enumerate_sorted)
  with assms have "\<forall>(j, c) \<in> set ?xs. \<not> in_view (innerHeight v) c"
    by (simp add: scan_good_def best_step_def)
  then have "\<not> in_view (innerHeight v) (steps v ! j)" if "j < length (steps v)" for j
    using that in_enumerate[of j "steps v ! j" "steps v"] by blast
  then show ?thesis by (auto simp: in_set_conv_nth)
qed

lemma best_step_Some:
  assumes "best_step v = Some (i, el)"
  shows "nearest_first v i \<and> el = steps v ! i"
proof -
  let ?xs = "zip [0..<length (steps v)] (steps v)"
  have "scan_good (innerHeight v) ([] @ ?xs) (scan_steps (innerHeight v) ?xs (None, None))"
    by (rule scan_good_all) (simp_all add: scan_good_def enumerate_sorted)
  with assms have mem: "(i, el) \<in> set ?xs" and v: "in_view (innerHeight v) el"
    and mn: "\<forall>(j, c') \<in> set ?xs. in_view (innerHeight v) c' \<longrightarrow>
              center_dist (innerHeight v) el \<le> center_dist (innerHeight v) c'
              \<and> (center_dist (innerHeight v) c' = center_dist (innerHeight v) el \<longrightarrow> i \<le> j)"
    by (simp_all add: scan_good_def best_step_def)
  from mem have i: "i < length (steps v)" "el = steps v ! i" by (simp_all add: in_enumerate)
  from mn have "\<forall>j < length (steps v). in_view (innerHeight v) (steps v ! j) \<longrightarrow>
          center_dist (innerHeight v) el \<le> center_dist (innerHeight v) (steps v ! j)
          \<and> (center_dist (innerHeight v) (steps v ! j) = center_dist (innerHeight v) el \<longrightarrow> i \<le> j)"
    by (auto simp: in_enumerate)
  with i v show ?thesis by (simp add: nearest_first_def)
qed

lemma active_setActiveByCenter:
  assumes "armed e"
  shows "active (setActiveByCenter p v e)
           = (case best_step v of None \<Rightarrow> active e | Some (b, el) \<Rightarrow> Some b)"
  using assms
  by (simp add: setActiveByCenter_def Let_def split: option.splits prod.splits)

text \<open>
  C5. While the engine is armed, \<^verbatim>\<open>setActiveByCenter\<close> makes active the card whose centre
  is nearest to the centre of the window among the cards that are in view (not wholly
  above and not wholly below the window), the first such card in document order when
  several are equally near, whichever card was active before; when no card is in view
  the active card stays as it was.
\<close>

theorem active_card_is_nearest:
  assumes "armed e"
  shows "if \<exists>c \<in> set (steps v). in_view (innerHeight v) c
         then \<exists>i. nearest_first v i \<and> active (setActiveByCenter p v e) = Some i
         else active (setActiveByCenter p v e) = active e"
proof (cases "best_step v")
  case None
  with best_step_None[OF None] active_setActiveByCenter[OF assms, of p v] show ?thesis by simp
next
  case (Some ic)
  obtain i el where ic: "ic = (i, el)" by (cases ic)
  from best_step_Some[of v i el] Some ic have nf: "nearest_first v i" by simp
  then have "\<exists>c \<in> set (steps v). in_view (innerHeight v) c"
    by (auto simp: nearest_first_def)
  moreover have "active (setActiveByCenter p v e) = Some i"
    using active_setActiveByCenter[OF assms, of p v] Some ic by simp
  ultimately show ?thesis using nf by auto
qed

lemma nearest_first_unique: "nearest_first v i \<Longrightarrow> nearest_first v j \<Longrightarrow> i = j"
  by (fastforce simp: nearest_first_def)

text \<open>
  The three cards with centres at 100, 400 and 900 pixels in a window of height 800:
  the second card becomes active, the third one having been active before.
\<close>

lemma demo_nearest: "nearest_first demo_viewport 1"
  by (simp add: nearest_first_def demo_viewport_def in_view_def rect_bottom_def center_dist_def
        numeral_3_eq_3 All_less_Suc)

theorem active_card_is_nearest_witness:
  "armed demo_engine
   \<and> (\<exists>c \<in> set (steps demo_viewport). in_view (innerHeight demo_viewport) c)
   \<and> nearest_first demo_viewport 1
   \<and> active (setActiveByCenter demo_page demo_viewport demo_engine) = Some 1"
proof -
  have a: "armed demo_engine" by (simp add: demo_engine_def)
  have v: "\<exists>c \<in> set (steps demo_viewport). in_view (innerHeight demo_viewport) c"
    by (simp add: demo_viewport_def in_view_def rect_bottom_def)
  from active_card_is_nearest[OF a, of demo_viewport demo_page] v
  obtain i where i: "nearest_first demo_viewport i"
    "active (setActiveByCenter demo_page demo_viewport demo_engine) = Some i"
    by auto
  from nearest_first_unique[OF i(1) demo_nearest] i a v demo_nearest show ?thesis by simp
qed

section \<open>The genres on the chart\<close>

lemma genres_same [simp]:
  "bubble_genres (log c s) = bubble_genres s" "label_genres (log c s) = label_genres s"
  "bubble_genres (showFineNote s) = bubble_genres s" "label_genres (showFineNote s) = label_genres s"
  "bubble_genres (hideFineNote s) = bubble_genres s" "label_genres (hideFineNote s) = label_genres s"
  "bubble_genres (crossfadeOut g s) = bubble_genres s" "label_genres (crossfadeOut g s) = label_genres s"
  "bubble_genres (crossfadeIn s) = bubble_genres s" "label_genres (crossfadeIn s) = label_genres s"
  "bubble_genres (addQuadrantsIfNeeded s) = bubble_genres s"
  "label_genres (addQuadrantsIfNeeded s) = label_genres s"
  "bubble_genres (focusBars n s) = bubble_genres s" "label_genres (focusBars n s) = label_genres s"
  "bubble_genres (focusBarsBySupergroup gn s) = bubble_genres s"
  "label_genres (focusBarsBySupergroup gn s) = label_genres s"
  "bubble_genres (showMethodologyBtn s) = bubble_genres s"
  "label_genres (showMethodologyBtn s) = label_genres s"
  "bubble_genres (hideMethodologyBtn s) = bubble_genres s"
  "label_genres (hideMethodologyBtn s) = label_genres s"
  by (simp_all add: bubble_genres_def label_genres_def chart_defs Let_def split: option.splits)

lemma genres_mapped [simp]:
  "bubble_genres (apply_dim f s) = bubble_genres s" "label_genres (apply_dim f s) = label_genres s"
  "bubble_genres (focusHorror on s) = bubble_genres s" "label_genres (focusHorror on s) = label_genres s"
  "bubble_genres (focusQuadrant p q s) = bubble_genres s"
  "label_genres (focusQuadrant p q s) = label_genres s"
  "bubble_genres (zoomToHorror p s) = bubble_genres s" "label_genres (zoomToHorror p s) = label_genres s"
  "bubble_genres (restoreFromHorrorZoom p s) = bubble_genres s"
  "label_genres (restoreFromHorrorZoom p s) = label_genres s"
  by (simp_all add: bubble_genres_def label_genres_def chart_defs Let_def comp_def
        dim_bubble_def dim_label_def zoom_bubble_def zoom_label_def restore_bubble_def
        restore_label_def)

lemma genres_drawn [simp]:
  "bubble_genres (drawScatter p s) = map genre (genreData p)"
  "label_genres (drawScatter p s) = map genre (top10 (genreData p))"
  "bubble_genres (drawFearBars_rest rows s) = []" "label_genres (drawFearBars_rest rows s) = []"
  "bubble_genres (drawFearBarsGrouped_rest rows s) = []"
  "label_genres (drawFearBarsGrouped_rest rows s) = []"
  by (simp_all add: bubble_genres_def label_genres_def chart_defs Let_def comp_def
        new_bubble_def new_label_def)

lemma genres_drawFearBars:
  "set (bubble_genres (drawFearBars s)) \<subseteq> set (bubble_genres s)"
  "set (label_genres (drawFearBars s)) \<subseteq> set (label_genres s)"
  by (simp_all add: bubble_genres_def label_genres_def chart_defs Let_def split: option.splits)


lemma shown_within_pending [simp]: "shown_within G (s\<lparr>pending := ts\<rparr>) = shown_within G s"
  by (simp add: shown_within_def bubble_genres_def label_genres_def)

lemma shown_within_title [simp]: "shown_within G (s\<lparr>title_text := t\<rparr>) = shown_within G s"
  by (simp add: shown_within_def bubble_genres_def label_genres_def)

lemma shown_within_fearRows [simp]: "shown_within G (s\<lparr>fearRows := r\<rparr>) = shown_within G s"
  by (simp add: shown_within_def bubble_genres_def label_genres_def)

lemma run_task_shown:
  assumes "shown_within G s"
  shows "shown_within G (run_task q t s)"
proof (cases t)
  case (FadeEnd g)
  have "shown_within G (crossfadeIn (drawFearBars s))"
    using assms genres_drawFearBars[of s] by (auto simp: shown_within_def)
  with FadeEnd show ?thesis by (cases g) (simp_all add: run_task.simps Let_def)
next
  case (CsvLoaded k)
  then show ?thesis by (cases k) (simp_all add: run_task.simps shown_within_def)
next
  case (FocusTimer name)
  with assms show ?thesis by (simp add: run_task.simps shown_within_def)
qed

lemma go_shown:
  assumes "shown_within G s" "set (map genre (genreData p)) \<subseteq> G"
  shows "shown_within G (go p scene s)"
proof -
  have t: "set (map genre (top10 (genreData p))) \<subseteq> G"
    using assms(2) set_top10[of "genreData p"] by auto
  from scene_cases[of scene]
  consider "scene = ''baseline''" | "scene = ''quadrants''" | "scene = ''high-views''"
    | "scene = ''critical-darlings''" | "scene = ''horror''"
    | "scene = ''horror-zoom''" | "scene \<in> set bar_scenes" | "scene \<notin> set recognized_scenes"
    unfolding restoring_scenes_def list.set insert_iff empty_iff by metis
  then show ?thesis
  proof cases
    case 1 show ?thesis unfolding 1 go_baseline using assms t
      by (simp add: Let_def shown_within_def del: set_map)
  next
    case 2 show ?thesis unfolding 2 go_quadrants using assms t
      by (simp add: Let_def shown_within_def del: set_map)
  next
    case 3 show ?thesis unfolding 3 go_high_views using assms t
      by (simp add: Let_def shown_within_def del: set_map)
  next
    case 4 show ?thesis unfolding 4 go_critical_darlings using assms t
      by (simp add: Let_def shown_within_def del: set_map)
  next
    case 5 show ?thesis unfolding 5 go_horror using assms t
      by (simp add: Let_def shown_within_def del: set_map)
  next
    case 6 show ?thesis unfolding 6 go_horror_zoom using assms t
      by (simp add: Let_def shown_within_def del: set_map)
  next
    case 7 show ?thesis unfolding go_bar_scene[OF 7] using assms
      by (simp add: Let_def shown_within_def split: option.splits)
  next
    case 8 with assms show ?thesis by (simp add: go_unrecognized)
  qed
qed

lemma run_scenes_shown:
  assumes "set (map genre (genreData p)) \<subseteq> G"
  shows "shown_within G (run_scenes p scenes cold)"
proof (induction scenes rule: rev_induct)
  case Nil
  show ?case by (simp add: run_scenes_def shown_within_def bubble_genres_def label_genres_def cold_def)
next
  case (snoc scene scenes)
  have "shown_within G (settle p (go p scene (run_scenes p scenes cold)))"
    by (rule settle_invariant) (simp_all add: go_shown[OF snoc assms] run_task_shown)
  then show ?case by (simp add: run_scenes_def issue_def)
qed

text \<open>
  C7. For every list of movie rows (and every reading of the numerals), a genre with
  fewer than five exploded (movie, genre) rows is not among the aggregates \<^verbatim>\<open>genreData\<close>;
  on a page with these aggregates \<^verbatim>\<open>drawScatter\<close> draws no bubble and no top-10 label
  for it, and no bubble and no label of it is on the chart after any sequence of scenes
  from the cold page.
\<close>

theorem rare_genres_excluded:
  assumes "membership_count num movies g < 5"
  shows "g \<notin> set (map genre (genreData_of num movies))
       \<and> (genreData p = genreData_of num movies \<longrightarrow>
            g \<notin> set (bubble_genres (drawScatter p s)) \<and> g \<notin> set (label_genres (drawScatter p s))
            \<and> g \<notin> set (bubble_genres (run_scenes p scenes cold))
            \<and> g \<notin> set (label_genres (run_scenes p scenes cold)))"
proof -
  have a: "g \<notin> set (map genre (genreData_of num movies))"
  proof
    assume "g \<in> set (map genre (genreData_of num movies))"
    then obtain d where "d \<in> set (genreData_of num movies)" "genre d = g" by auto
    with genreData_entry[of d num movies] assms show False by simp
  qed
  have b: "set (bubble_genres (drawScatter p s)) \<subseteq> set (map genre (genreData p))"
    by simp
  have c: "set (label_genres (drawScatter p s)) \<subseteq> set (map genre (genreData p))"
    using set_top10[of "genreData p"] by auto
  have d: "shown_within (set (map genre (genreData p))) (run_scenes p scenes cold)"
    by (rule run_scenes_shown) simp
  show ?thesis
  proof (intro conjI impI)
    show "g \<notin> set (map genre (genreData_of num movies))" by (rule a)
  next
    assume e: "genreData p = genreData_of num movies"
    from a b[unfolded e] show "g \<notin> set (bubble_genres (drawScatter p s))" by blast
  next
    assume e: "genreData p = genreData_of num movies"
    from a c[unfolded e] show "g \<notin> set (label_genres (drawScatter p s))" by blast
  next
    assume e: "genreData p = genreData_of num movies"
    from a d[unfolded e shown_within_def] show "g \<notin> set (bubble_genres (run_scenes p scenes cold))"
      by blast
  next
    assume e: "genreData p = genreData_of num movies"
    from a d[unfolded e shown_within_def] show "g \<notin> set (label_genres (run_scenes p scenes cold))"
      by blast
  qed
qed

text \<open>On the example page the thriller has one row and is never drawn.\<close>

theorem rare_genres_excluded_witness:
  "membership_count demo_num demo_movies ''Thriller'' < 5
   \<and> ''Thriller'' \<notin> set (map genre (genreData_of demo_num demo_movies))
   \<and> ''Thriller'' \<notin> set (bubble_genres (drawScatter demo_page cold))
   \<and> ''Thriller'' \<notin> set (label_genres (drawScatter demo_page cold))
   \<and> ''Thriller'' \<notin> set (bubble_genres (run_scenes demo_page [''baseline'', ''horror-zoom''] cold))
   \<and> ''Thriller'' \<notin> set (label_genres (run_scenes demo_page [''baseline'', ''horror-zoom''] cold))"
proof -
  have h: "membership_count demo_num demo_movies ''Thriller'' < 5"
    by (simp add: demo_membership)
  have g: "genreData demo_page = genreData_of demo_num demo_movies"
    by (simp add: demo_page_def)
  from rare_genres_excluded[OF h, of demo_page cold "[''baseline'', ''horror-zoom'']"] h g
  show ?thesis by blast
qed


end
